theory Spec2Isabelle
  imports Main "HOL-Library.Char_ord" "HOL-Library.List_Lexorder" "HOL-Library.Product_Lexorder"
begin

section \<open>JSON values, Python dictionaries and exceptions\<close>

text \<open>
  The values the game master handles are the results of \<^verbatim>\<open>json.loads\<close> and
  \<^verbatim>\<open>response.json()\<close>: trees without sharing. A Python \<^verbatim>\<open>dict\<close> keeps its keys in
  insertion order and holds each key once; it is an association list whose keys are
  distinct. JSON numbers are the integers (a non-integer number is outside this model).
  Strings are UTF-8 byte lists, so the order on \<^typ>\<open>string\<close> is Python's order on \<^verbatim>\<open>str\<close>.
\<close>

datatype json =
    JNull
  | JBool bool
  | JNum int
  | JStr string
  | JList "json list"
  | JDict "(string \<times> json) list"

type_synonym dict = "(string \<times> json) list"

datatype exc =
    AttributeError
  | TypeError
  | KeyError
  | JSONDecodeError
  | RequestException bool
  | DuplicateKeyError
  | ExternalError string

text \<open>The argument of \<open>RequestException\<close> says whether the exception carries the body
  of a response (an HTTP error status does, a failed connection does not).\<close>

text \<open>\<^verbatim>\<open>d.get(k)\<close> without default, \<^verbatim>\<open>k in d\<close> (as \<open>getitem d k \<noteq> None\<close>),
  \<^verbatim>\<open>d.get(k, dflt)\<close>, \<^verbatim>\<open>d[k] = v\<close> and \<^verbatim>\<open>d.setdefault(k, dflt)\<close>.\<close>

fun getitem :: "dict \<Rightarrow> string \<Rightarrow> json option" where
  "getitem [] k = None"
| "getitem ((a, b) # d) k = (if a = k then Some b else getitem d k)"

definition get_default :: "dict \<Rightarrow> string \<Rightarrow> json \<Rightarrow> json" where
  "get_default d k dflt = (case getitem d k of Some v \<Rightarrow> v | None \<Rightarrow> dflt)"

fun setitem :: "dict \<Rightarrow> string \<Rightarrow> json \<Rightarrow> dict" where
  "setitem [] k v = [(k, v)]"
| "setitem ((a, b) # d) k v = (if a = k then (a, v) # d else (a, b) # setitem d k v)"

definition setdefault :: "dict \<Rightarrow> string \<Rightarrow> json \<Rightarrow> dict \<times> json" where
  "setdefault d k dflt =
     (case getitem d k of Some v \<Rightarrow> (d, v) | None \<Rightarrow> (setitem d k dflt, dflt))"

text \<open>Truth value of a JSON value in a condition (\<^verbatim>\<open>if x:\<close>, \<^verbatim>\<open>x and y\<close>).\<close>

fun truthy :: "json \<Rightarrow> bool" where
  "truthy JNull = False"
| "truthy (JBool b) = b"
| "truthy (JNum n) = (n \<noteq> 0)"
| "truthy (JStr s) = (s \<noteq> [])"
| "truthy (JList xs) = (xs \<noteq> [])"
| "truthy (JDict d) = (d \<noteq> [])"

section \<open>\<^verbatim>\<open>_deep_merge\<close> (agents/gamemaster.py, lines 28-41)\<close>

text \<open>
  The destination is mutated in place and returned; the model returns the destination
  as it is after the call (\<open>Inr\<close>), or the exception that the call raises (\<open>Inl\<close>).
  The recursive call receives whatever \<^verbatim>\<open>setdefault\<close> returned, dictionary or not:
  on a value that is not a dictionary \<^verbatim>\<open>setdefault\<close> raises AttributeError and an item
  assignment raises TypeError, unless the source has no key left to merge.
\<close>

function deep_merge :: "dict \<Rightarrow> json \<Rightarrow> exc + json" where
  "deep_merge [] destination = Inr destination"
| "deep_merge ((key, val) # source) destination =
     (case val of
        JDict sub \<Rightarrow>
          (case destination of
             JDict d \<Rightarrow>
               (case setdefault d key (JDict []) of (d1, node) \<Rightarrow>
                  (case deep_merge sub node of
                     Inl e \<Rightarrow> Inl e
                   | Inr node' \<Rightarrow> deep_merge source (JDict (setitem d1 key node'))))
           | _ \<Rightarrow> Inl AttributeError)
      | _ \<Rightarrow>
          (case destination of
             JDict d \<Rightarrow> deep_merge source (JDict (setitem d key val))
           | _ \<Rightarrow> Inl TypeError))"
  by pat_completeness auto
termination
  by (relation "measure (\<lambda>(s, d). size_list (size_prod (\<lambda>_. 0) size) s)") auto

declare deep_merge.simps(2) [simp del]

section \<open>Text helpers\<close>

text \<open>\<^verbatim>\<open>sep.join(xs)\<close> and the decimal rendering of a length in an f-string.\<close>

fun join :: "string \<Rightarrow> string list \<Rightarrow> string" where
  "join sep [] = []"
| "join sep [x] = x"
| "join sep (x # y # ys) = x @ sep @ join sep (y # ys)"

definition digit :: "nat \<Rightarrow> char" where
  "digit n = ''0123456789'' ! n"

fun str_nat :: "nat \<Rightarrow> string" where
  "str_nat n = (if n < 10 then [digit n] else str_nat (n div 10) @ [digit (n mod 10)])"

text \<open>
  \<^verbatim>\<open>not s.strip()\<close>: the string holds white space only. \<open>ws_len\<close> is the number of
  bytes of the white-space character at the head of a UTF-8 string (0 when there is
  none): the ASCII ones and U+0085, U+00A0, U+1680, U+2000 to U+200A, U+2028, U+2029,
  U+202F, U+205F, U+3000.
\<close>

fun ws_len :: "nat list \<Rightarrow> nat" where
  "ws_len [] = 0"
| "ws_len (a # rest) =
     (if (9 \<le> a \<and> a \<le> 13) \<or> (28 \<le> a \<and> a \<le> 32) then 1
      else if a = 0xC2 \<and> (take 1 rest = [0x85] \<or> take 1 rest = [0xA0]) then 2
      else if a = 0xE1 \<and> take 2 rest = [0x9A, 0x80] then 3
      else if a = 0xE2 \<and> take 1 rest = [0x80] \<and> length rest \<ge> 2 \<and>
              ((0x80 \<le> rest ! 1 \<and> rest ! 1 \<le> 0x8A) \<or> rest ! 1 = 0xA8 \<or> rest ! 1 = 0xA9 \<or> rest ! 1 = 0xAF)
        then 3
      else if a = 0xE2 \<and> take 2 rest = [0x81, 0x9F] then 3
      else if a = 0xE3 \<and> take 2 rest = [0x80, 0x80] then 3
      else 0)"

function blank_bytes :: "nat list \<Rightarrow> bool" where
  "blank_bytes bs =
     (if bs = [] then True
      else if ws_len bs = 0 then False
      else blank_bytes (drop (ws_len bs) bs))"
  by pat_completeness auto
termination
  by (relation "measure length") auto

declare str_nat.simps [simp del]
declare blank_bytes.simps [simp del]

definition blank :: "string \<Rightarrow> bool" where
  "blank s = blank_bytes (map of_char s)"

section \<open>The literal texts of the source, as UTF-8 bytes\<close>

definition txt_vector_header :: string where \<comment> \<open>header of the vector-search section, line 142\<close>
  "txt_vector_header =
     ''['' @ [CHR 0xEA, CHR 0xB3, CHR 0xBC, CHR 0xEA, CHR 0xB1, CHR 0xB0] @ '' '' @ [CHR 0xEA,
     CHR 0xB4, CHR 0x80, CHR 0xEB, CHR 0xA0, CHR 0xA8] @ '' '' @ [CHR 0xEB, CHR 0x8C, CHR 0x80,
     CHR 0xED, CHR 0x99, CHR 0x94] @ '' ('' @ [CHR 0xEB, CHR 0xB2, CHR 0xA1, CHR 0xED,
     CHR 0x84, CHR 0xB0] @ '' '' @ [CHR 0xEA, CHR 0xB2, CHR 0x80, CHR 0xEC, CHR 0x83,
     CHR 0x89] @ '')]\<newline>''"

definition txt_recent_open :: string where \<comment> \<open>header of the recent section up to the count, line 147\<close>
  "txt_recent_open =
     ''['' @ [CHR 0xEC, CHR 0xB5, CHR 0x9C, CHR 0xEA, CHR 0xB7, CHR 0xBC] @ '' '' @ [CHR 0xEB,
     CHR 0x8C, CHR 0x80, CHR 0xED, CHR 0x99, CHR 0x94] @ '' (''"

definition txt_turns_close :: string where \<comment> \<open>end of a header after the count, lines 147 and 153\<close>
  "txt_turns_close =
     [CHR 0xED, CHR 0x84, CHR 0xB4] @ '')]\<newline>''"

definition txt_all_open :: string where \<comment> \<open>header of the full history up to the count, line 153\<close>
  "txt_all_open =
     ''['' @ [CHR 0xEB, CHR 0x8C, CHR 0x80, CHR 0xED, CHR 0x99, CHR 0x94] @ '' '' @ [CHR 0xEB,
     CHR 0x82, CHR 0xB4, CHR 0xEC, CHR 0x97, CHR 0xAD] @ '' (''"

definition txt_new_session :: string where \<comment> \<open>summary of a game without history, line 155\<close>
  "txt_new_session =
     [CHR 0xEC, CHR 0x83, CHR 0x88, CHR 0xEB, CHR 0xA1, CHR 0x9C, CHR 0xEC, CHR 0x9A,
     CHR 0xB4] @ '' '' @ [CHR 0xEA, CHR 0xB2, CHR 0x8C, CHR 0xEC, CHR 0x9E, CHR 0x84] @ '' '' @
     [CHR 0xEC, CHR 0x84, CHR 0xB8, CHR 0xEC, CHR 0x85, CHR 0x98, CHR 0xEC, CHR 0x9E, CHR 0x85,
     CHR 0xEB, CHR 0x8B, CHR 0x88, CHR 0xEB, CHR 0x8B, CHR 0xA4] @ ''.''"

definition msg_empty_response :: string where \<comment> \<open>line 175\<close>
  "msg_empty_response =
     [CHR 0xEC, CHR 0xA3, CHR 0x84, CHR 0xEC, CHR 0x86, CHR 0xA1, CHR 0xED, CHR 0x95, CHR 0xA9,
     CHR 0xEB, CHR 0x8B, CHR 0x88, CHR 0xEB, CHR 0x8B, CHR 0xA4] @ ''. '' @ [CHR 0xEC,
     CHR 0x9D, CHR 0x91, CHR 0xEB, CHR 0x8B, CHR 0xB5, CHR 0xEC, CHR 0x9D, CHR 0x84] @ '' '' @
     [CHR 0xEC, CHR 0x83, CHR 0x9D, CHR 0xEC, CHR 0x84, CHR 0xB1, CHR 0xED, CHR 0x95,
     CHR 0xA0] @ '' '' @ [CHR 0xEC, CHR 0x88, CHR 0x98] @ '' '' @ [CHR 0xEC, CHR 0x97,
     CHR 0x86, CHR 0xEC, CHR 0x8A, CHR 0xB5, CHR 0xEB, CHR 0x8B, CHR 0x88, CHR 0xEB, CHR 0x8B,
     CHR 0xA4] @ ''. '' @ [CHR 0xEB, CHR 0x8B, CHR 0xA4, CHR 0xEC, CHR 0x8B, CHR 0x9C] @
     '' '' @ [CHR 0xEC, CHR 0x8B, CHR 0x9C, CHR 0xEB, CHR 0x8F, CHR 0x84, CHR 0xED, CHR 0x95,
     CHR 0xB4, CHR 0xEC, CHR 0xA3, CHR 0xBC, CHR 0xEC, CHR 0x84, CHR 0xB8, CHR 0xEC, CHR 0x9A,
     CHR 0x94] @ ''.''"

definition opt_retry :: string where \<comment> \<open>lines 176, 193 and 601\<close>
  "opt_retry =
     [CHR 0xEB, CHR 0x8B, CHR 0xA4, CHR 0xEC, CHR 0x8B, CHR 0x9C] @ '' '' @ [CHR 0xEC,
     CHR 0x8B, CHR 0x9C, CHR 0xEB, CHR 0x8F, CHR 0x84]"

definition opt_check_situation :: string where \<comment> \<open>lines 176 and 186\<close>
  "opt_check_situation =
     [CHR 0xEC, CHR 0x83, CHR 0x81, CHR 0xED, CHR 0x99, CHR 0xA9] @ '' '' @ [CHR 0xED,
     CHR 0x99, CHR 0x95, CHR 0xEC, CHR 0x9D, CHR 0xB8]"

definition msg_generation_failed :: string where \<comment> \<open>line 185\<close>
  "msg_generation_failed =
     [CHR 0xEC, CHR 0x9D, CHR 0x91, CHR 0xEB, CHR 0x8B, CHR 0xB5] @ '' '' @ [CHR 0xEC,
     CHR 0x83, CHR 0x9D, CHR 0xEC, CHR 0x84, CHR 0xB1] @ '' '' @ [CHR 0xEC, CHR 0x8B, CHR 0xA4,
     CHR 0xED, CHR 0x8C, CHR 0xA8]"

definition opt_continue :: string where \<comment> \<open>line 186\<close>
  "opt_continue =
     [CHR 0xEA, CHR 0xB3, CHR 0x84, CHR 0xEC, CHR 0x86, CHR 0x8D] @ '' '' @ [CHR 0xEC,
     CHR 0xA7, CHR 0x84, CHR 0xED, CHR 0x96, CHR 0x89]"

definition opt_other_action :: string where \<comment> \<open>line 186\<close>
  "opt_other_action =
     [CHR 0xEB, CHR 0x8B, CHR 0xA4, CHR 0xEB, CHR 0xA5, CHR 0xB8] @ '' '' @ [CHR 0xED,
     CHR 0x96, CHR 0x89, CHR 0xEB, CHR 0x8F, CHR 0x99]"

definition msg_system_error :: string where \<comment> \<open>line 192\<close>
  "msg_system_error =
     [CHR 0xEC, CHR 0x8B, CHR 0x9C, CHR 0xEC, CHR 0x8A, CHR 0xA4, CHR 0xED, CHR 0x85,
     CHR 0x9C] @ '' '' @ [CHR 0xEC, CHR 0x98, CHR 0xA4, CHR 0xEB, CHR 0xA5, CHR 0x98, CHR 0xEA,
     CHR 0xB0, CHR 0x80] @ '' '' @ [CHR 0xEB, CHR 0xB0, CHR 0x9C, CHR 0xEC, CHR 0x83, CHR 0x9D,
     CHR 0xED, CHR 0x96, CHR 0x88, CHR 0xEC, CHR 0x8A, CHR 0xB5, CHR 0xEB, CHR 0x8B, CHR 0x88,
     CHR 0xEB, CHR 0x8B, CHR 0xA4] @ ''.''"

definition txt_user_prefix :: string where \<comment> \<open>line 562\<close>
  "txt_user_prefix =
     [CHR 0xEC, CHR 0x82, CHR 0xAC, CHR 0xEC, CHR 0x9A, CHR 0xA9, CHR 0xEC, CHR 0x9E,
     CHR 0x90] @ '': ''"

definition txt_image_open :: string where \<comment> \<open>line 572\<close>
  "txt_image_open =
     ''\<newline>['' @ [CHR 0xEC, CHR 0x9D, CHR 0xB4, CHR 0xEB, CHR 0xAF, CHR 0xB8, CHR 0xEC,
     CHR 0xA7, CHR 0x80] @ '': ''"

definition txt_unknown :: string where \<comment> \<open>default name and class, lines 401 and 402\<close>
  "txt_unknown =
     [CHR 0xEC, CHR 0x95, CHR 0x8C] @ '' '' @ [CHR 0xEC, CHR 0x88, CHR 0x98] @ '' '' @
     [CHR 0xEC, CHR 0x97, CHR 0x86, CHR 0xEC, CHR 0x9D, CHR 0x8C]"

definition txt_adventurer :: string where \<comment> \<open>default name of the banner, line 426\<close>
  "txt_adventurer =
     [CHR 0xEB, CHR 0xAA, CHR 0xA8, CHR 0xED, CHR 0x97, CHR 0x98, CHR 0xEA, CHR 0xB0, CHR 0x80]"

definition txt_character :: string where \<comment> \<open>default name of the fallback message, line 455\<close>
  "txt_character =
     [CHR 0xEC, CHR 0xBA, CHR 0x90, CHR 0xEB, CHR 0xA6, CHR 0xAD, CHR 0xED, CHR 0x84, CHR 0xB0]"

definition txt_fallen :: string where \<comment> \<open>line 455\<close>
  "txt_fallen =
     [CHR 0xEB, CHR 0x8A, CHR 0x94] @ '' '' @ [CHR 0xEC, CHR 0x93, CHR 0xB0, CHR 0xEB,
     CHR 0x9F, CHR 0xAC, CHR 0xEC, CHR 0xA1, CHR 0x8C, CHR 0xEC, CHR 0x8A, CHR 0xB5, CHR 0xEB,
     CHR 0x8B, CHR 0x88, CHR 0xEB, CHR 0x8B, CHR 0xA4] @ ''...\<newline>\<newline>'' @
     [CHR 0xEA, CHR 0xB2, CHR 0x8C, CHR 0xEC, CHR 0x9E, CHR 0x84, CHR 0xEC, CHR 0x9D,
     CHR 0xB4] @ '' '' @ [CHR 0xEC, CHR 0xA2, CHR 0x85, CHR 0xEB, CHR 0xA3, CHR 0x8C, CHR 0xEB,
     CHR 0x90, CHR 0x98, CHR 0xEC, CHR 0x97, CHR 0x88, CHR 0xEC, CHR 0x8A, CHR 0xB5, CHR 0xEB,
     CHR 0x8B, CHR 0x88, CHR 0xEB, CHR 0x8B, CHR 0xA4] @ ''.''"

definition err_response_0 :: string where \<comment> \<open>line 592\<close>
  "err_response_0 =
     [CHR 0xEC, CHR 0xA3, CHR 0x84, CHR 0xEC, CHR 0x86, CHR 0xA1, CHR 0xED, CHR 0x95, CHR 0xA9,
     CHR 0xEB, CHR 0x8B, CHR 0x88, CHR 0xEB, CHR 0x8B, CHR 0xA4] @ ''. '' @ [CHR 0xEC,
     CHR 0x9E, CHR 0xA0, CHR 0xEC, CHR 0x8B, CHR 0x9C] @ '' '' @ [CHR 0xEB, CHR 0xAC, CHR 0xB8,
     CHR 0xEC, CHR 0xA0, CHR 0x9C, CHR 0xEA, CHR 0xB0, CHR 0x80] @ '' '' @ [CHR 0xEB, CHR 0xB0,
     CHR 0x9C, CHR 0xEC, CHR 0x83, CHR 0x9D, CHR 0xED, CHR 0x96, CHR 0x88, CHR 0xEC, CHR 0x8A,
     CHR 0xB5, CHR 0xEB, CHR 0x8B, CHR 0x88, CHR 0xEB, CHR 0x8B, CHR 0xA4] @ ''. '' @
     [CHR 0xEB, CHR 0x8B, CHR 0xA4, CHR 0xEC, CHR 0x8B, CHR 0x9C] @ '' '' @ [CHR 0xEC,
     CHR 0x8B, CHR 0x9C, CHR 0xEB, CHR 0x8F, CHR 0x84, CHR 0xED, CHR 0x95, CHR 0xB4] @ '' '' @
     [CHR 0xEC, CHR 0xA3, CHR 0xBC, CHR 0xEC, CHR 0x84, CHR 0xB8, CHR 0xEC, CHR 0x9A,
     CHR 0x94] @ ''.''"

definition err_response_1 :: string where \<comment> \<open>line 593\<close>
  "err_response_1 =
     [CHR 0xEA, CHR 0xB2, CHR 0x8C, CHR 0xEC, CHR 0x9E, CHR 0x84] @ '' '' @ [CHR 0xEC,
     CHR 0xA7, CHR 0x84, CHR 0xED, CHR 0x96, CHR 0x89] @ '' '' @ [CHR 0xEC, CHR 0xA4,
     CHR 0x91] @ '' '' @ [CHR 0xEC, CHR 0x98, CHR 0xA4, CHR 0xEB, CHR 0xA5, CHR 0x98, CHR 0xEA,
     CHR 0xB0, CHR 0x80] @ '' '' @ [CHR 0xEB, CHR 0xB0, CHR 0x9C, CHR 0xEC, CHR 0x83, CHR 0x9D,
     CHR 0xED, CHR 0x96, CHR 0x88, CHR 0xEC, CHR 0x8A, CHR 0xB5, CHR 0xEB, CHR 0x8B, CHR 0x88,
     CHR 0xEB, CHR 0x8B, CHR 0xA4] @ ''. '' @ [CHR 0xEB, CHR 0x8B, CHR 0xA4, CHR 0xEB,
     CHR 0xA5, CHR 0xB8] @ '' '' @ [CHR 0xED, CHR 0x96, CHR 0x89, CHR 0xEB, CHR 0x8F, CHR 0x99,
     CHR 0xEC, CHR 0x9D, CHR 0x84] @ '' '' @ [CHR 0xEC, CHR 0x8B, CHR 0x9C, CHR 0xEB, CHR 0x8F,
     CHR 0x84, CHR 0xED, CHR 0x95, CHR 0xB4, CHR 0xEB, CHR 0xB3, CHR 0xB4, CHR 0xEC, CHR 0x84,
     CHR 0xB8, CHR 0xEC, CHR 0x9A, CHR 0x94] @ ''.''"

definition err_response_2 :: string where \<comment> \<open>line 594\<close>
  "err_response_2 =
     [CHR 0xEC, CHR 0x8B, CHR 0x9C, CHR 0xEC, CHR 0x8A, CHR 0xA4, CHR 0xED, CHR 0x85, CHR 0x9C,
     CHR 0xEC, CHR 0x97, CHR 0x90] @ '' '' @ [CHR 0xEC, CHR 0x9D, CHR 0xBC, CHR 0xEC, CHR 0x8B,
     CHR 0x9C, CHR 0xEC, CHR 0xA0, CHR 0x81, CHR 0xEC, CHR 0x9D, CHR 0xB8] @ '' '' @ [CHR 0xEB,
     CHR 0xAC, CHR 0xB8, CHR 0xEC, CHR 0xA0, CHR 0x9C, CHR 0xEA, CHR 0xB0, CHR 0x80] @ '' '' @
     [CHR 0xEC, CHR 0x9E, CHR 0x88, CHR 0xEC, CHR 0x8A, CHR 0xB5, CHR 0xEB, CHR 0x8B, CHR 0x88,
     CHR 0xEB, CHR 0x8B, CHR 0xA4] @ ''. '' @ [CHR 0xEA, CHR 0xB3, CHR 0xA7] @ '' '' @
     [CHR 0xEB, CHR 0x8B, CHR 0xA4, CHR 0xEC, CHR 0x8B, CHR 0x9C] @ '' '' @ [CHR 0xEC,
     CHR 0xA0, CHR 0x95, CHR 0xEC, CHR 0x83, CHR 0x81, CHR 0xED, CHR 0x99, CHR 0x94, CHR 0xEB,
     CHR 0x90, CHR 0xA0] @ '' '' @ [CHR 0xEC, CHR 0x98, CHR 0x88, CHR 0xEC, CHR 0xA0, CHR 0x95,
     CHR 0xEC, CHR 0x9E, CHR 0x85, CHR 0xEB, CHR 0x8B, CHR 0x88, CHR 0xEB, CHR 0x8B,
     CHR 0xA4] @ ''.''"

definition opt_check_status :: string where \<comment> \<open>line 601\<close>
  "opt_check_status =
     [CHR 0xEC, CHR 0x83, CHR 0x81, CHR 0xED, CHR 0x83, CHR 0x9C] @ '' '' @ [CHR 0xED,
     CHR 0x99, CHR 0x95, CHR 0xEC, CHR 0x9D, CHR 0xB8]"

definition opt_help :: string where \<comment> \<open>line 601\<close>
  "opt_help =
     [CHR 0xEB, CHR 0x8F, CHR 0x84, CHR 0xEC, CHR 0x9B, CHR 0x80, CHR 0xEB, CHR 0xA7, CHR 0x90]"

definition death_prompt_0 :: string where \<comment> \<open>death prompt, lines 398-419, part 0\<close>
  "death_prompt_0 =
     [CHR 0xEC, CHR 0xBA, CHR 0x90, CHR 0xEB, CHR 0xA6, CHR 0xAD, CHR 0xED, CHR 0x84, CHR 0xB0,
     CHR 0xEA, CHR 0xB0, CHR 0x80] @ '' '' @ [CHR 0xEC, CHR 0x82, CHR 0xAC, CHR 0xEB, CHR 0xA7,
     CHR 0x9D, CHR 0xED, CHR 0x96, CHR 0x88, CHR 0xEC, CHR 0x8A, CHR 0xB5, CHR 0xEB, CHR 0x8B,
     CHR 0x88, CHR 0xEB, CHR 0x8B, CHR 0xA4] @ ''. '' @ [CHR 0xEB, CHR 0x8B, CHR 0xA4,
     CHR 0xEC, CHR 0x9D, CHR 0x8C] @ '' '' @ [CHR 0xEC, CHR 0xA0, CHR 0x95, CHR 0xEB, CHR 0xB3,
     CHR 0xB4, CHR 0xEB, CHR 0xA5, CHR 0xBC] @ '' '' @ [CHR 0xEB, CHR 0xB0, CHR 0x94, CHR 0xED,
     CHR 0x83, CHR 0x95, CHR 0xEC, CHR 0x9C, CHR 0xBC, CHR 0xEB, CHR 0xA1, CHR 0x9C] @ '' '' @
     [CHR 0xEC, CHR 0xA3, CHR 0xBD, CHR 0xEC, CHR 0x9D, CHR 0x8C, CHR 0xEC, CHR 0x9D,
     CHR 0x98] @ '' '' @ [CHR 0xEC, CHR 0x9B, CHR 0x90, CHR 0xEC, CHR 0x9D, CHR 0xB8, CHR 0xEA,
     CHR 0xB3, CHR 0xBC] @ '' '' @ [CHR 0xEC, CHR 0xBA, CHR 0x90, CHR 0xEB, CHR 0xA6, CHR 0xAD,
     CHR 0xED, CHR 0x84, CHR 0xB0, CHR 0xEC, CHR 0x9D, CHR 0x98] @ '' '' @ [CHR 0xEC, CHR 0x97,
     CHR 0xAC, CHR 0xEC, CHR 0xA0, CHR 0x95, CHR 0xEC, CHR 0x9D, CHR 0x84] @ '' '' @ [CHR 0xEC,
     CHR 0x9A, CHR 0x94, CHR 0xEC, CHR 0x95, CHR 0xBD, CHR 0xED, CHR 0x95, CHR 0xB4, CHR 0xEC,
     CHR 0xA3, CHR 0xBC, CHR 0xEC, CHR 0x84, CHR 0xB8, CHR 0xEC, CHR 0x9A, CHR 0x94] @
     ''.\<newline>\<newline>=== '' @ [CHR 0xEC, CHR 0xBA, CHR 0x90, CHR 0xEB, CHR 0xA6,
     CHR 0xAD, CHR 0xED, CHR 0x84, CHR 0xB0] @ '' '' @ [CHR 0xEC, CHR 0xA0, CHR 0x95, CHR 0xEB,
     CHR 0xB3, CHR 0xB4] @ '' ===\<newline>'' @ [CHR 0xEC, CHR 0x9D, CHR 0xB4, CHR 0xEB,
     CHR 0xA6, CHR 0x84] @ '': ''"

definition death_prompt_1 :: string where \<comment> \<open>death prompt, lines 398-419, part 1\<close>
  "death_prompt_1 =
     ''\<newline>'' @ [CHR 0xEC, CHR 0xA7, CHR 0x81, CHR 0xEC, CHR 0x97, CHR 0x85] @ '': ''"

definition death_prompt_2 :: string where \<comment> \<open>death prompt, lines 398-419, part 2\<close>
  "death_prompt_2 =
     ''\<newline>'' @ [CHR 0xEB, CHR 0xA0, CHR 0x88, CHR 0xEB, CHR 0xB2, CHR 0xA8] @ '': ''"

definition death_prompt_3 :: string where \<comment> \<open>death prompt, lines 398-419, part 3\<close>
  "death_prompt_3 =
     ''\<newline>\<newline>=== '' @ [CHR 0xEC, CHR 0xB5, CHR 0x9C, CHR 0xEA, CHR 0xB7,
     CHR 0xBC] @ '' '' @ [CHR 0xEA, CHR 0xB2, CHR 0x8C, CHR 0xEC, CHR 0x9E, CHR 0x84] @ '' '' @
     [CHR 0xEC, CHR 0xA7, CHR 0x84, CHR 0xED, CHR 0x96, CHR 0x89] @ '' ===\<newline>''"

definition death_prompt_4 :: string where \<comment> \<open>death prompt, lines 398-419, part 4\<close>
  "death_prompt_4 =
     ''\<newline>\<newline>=== '' @ [CHR 0xEB, CHR 0xA7, CHR 0x88, CHR 0xEC, CHR 0xA7,
     CHR 0x80, CHR 0xEB, CHR 0xA7, CHR 0x89] @ '' '' @ [CHR 0xED, CHR 0x96, CHR 0x89, CHR 0xEB,
     CHR 0x8F, CHR 0x99] @ '' ===\<newline>''"

definition death_prompt_5 :: string where \<comment> \<open>death prompt, lines 398-419, part 5\<close>
  "death_prompt_5 =
     ''\<newline>\<newline>=== '' @ [CHR 0xEC, CHR 0xA3, CHR 0xBD, CHR 0xEC, CHR 0x9D,
     CHR 0x8C, CHR 0xEC, CHR 0x9D, CHR 0x98] @ '' '' @ [CHR 0xEC, CHR 0x88, CHR 0x9C, CHR 0xEA,
     CHR 0xB0, CHR 0x84] @ '' ===\<newline>''"

definition death_prompt_6 :: string where \<comment> \<open>death prompt, lines 398-419, part 6\<close>
  "death_prompt_6 =
     ''\<newline>\<newline>'' @ [CHR 0xEB, CHR 0x8B, CHR 0xA4, CHR 0xEC, CHR 0x9D, CHR 0x8C] @
     '' '' @ [CHR 0xED, CHR 0x98, CHR 0x95, CHR 0xEC, CHR 0x8B, CHR 0x9D, CHR 0xEC, CHR 0x9C,
     CHR 0xBC, CHR 0xEB, CHR 0xA1, CHR 0x9C] @ '' '' @ [CHR 0xEC, CHR 0x9D, CHR 0x91, CHR 0xEB,
     CHR 0x8B, CHR 0xB5, CHR 0xED, CHR 0x95, CHR 0xB4, CHR 0xEC, CHR 0xA3, CHR 0xBC, CHR 0xEC,
     CHR 0x84, CHR 0xB8, CHR 0xEC, CHR 0x9A, CHR 0x94] @ '':\<newline>1. '' @ [CHR 0xEC,
     CHR 0xA3, CHR 0xBD, CHR 0xEC, CHR 0x9D, CHR 0x8C, CHR 0xEC, CHR 0x9D, CHR 0x98] @ '' '' @
     [CHR 0xEC, CHR 0x9B, CHR 0x90, CHR 0xEC, CHR 0x9D, CHR 0xB8, CHR 0xEC, CHR 0x9D,
     CHR 0x84] @ '' 2-3'' @ [CHR 0xEB, CHR 0xAC, CHR 0xB8, CHR 0xEC, CHR 0x9E, CHR 0xA5,
     CHR 0xEC, CHR 0x9C, CHR 0xBC, CHR 0xEB, CHR 0xA1, CHR 0x9C] @ '' '' @ [CHR 0xEC, CHR 0x84,
     CHR 0xA4, CHR 0xEB, CHR 0xAA, CHR 0x85] @ ''\<newline>2. '' @ [CHR 0xEC, CHR 0xBA,
     CHR 0x90, CHR 0xEB, CHR 0xA6, CHR 0xAD, CHR 0xED, CHR 0x84, CHR 0xB0, CHR 0xEC, CHR 0x9D,
     CHR 0x98] @ '' '' @ [CHR 0xEC, CHR 0x97, CHR 0xAC, CHR 0xEC, CHR 0xA0, CHR 0x95, CHR 0xEC,
     CHR 0x9D, CHR 0x84] @ '' 3-4'' @ [CHR 0xEB, CHR 0xAC, CHR 0xB8, CHR 0xEC, CHR 0x9E,
     CHR 0xA5, CHR 0xEC, CHR 0x9C, CHR 0xBC, CHR 0xEB, CHR 0xA1, CHR 0x9C] @ '' '' @ [CHR 0xEC,
     CHR 0x9A, CHR 0x94, CHR 0xEC, CHR 0x95, CHR 0xBD] @ '' ('' @ [CHR 0xEC, CHR 0x8B,
     CHR 0x9C, CHR 0xEC, CHR 0x9E, CHR 0x91, CHR 0xEB, CHR 0xB6, CHR 0x80, CHR 0xED, CHR 0x84,
     CHR 0xB0] @ '' '' @ [CHR 0xEB, CHR 0x81, CHR 0x9D, CHR 0xEA, CHR 0xB9, CHR 0x8C, CHR 0xEC,
     CHR 0xA7, CHR 0x80] @ '')\<newline>3. '' @ [CHR 0xEA, CHR 0xB0, CHR 0x90, CHR 0xEB,
     CHR 0x8F, CHR 0x99, CHR 0xEC, CHR 0xA0, CHR 0x81, CHR 0xEC, CHR 0x9D, CHR 0xB4, CHR 0xEA,
     CHR 0xB3, CHR 0xA0] @ '' '' @ [CHR 0xEA, CHR 0xB7, CHR 0xB9, CHR 0xEC, CHR 0xA0, CHR 0x81,
     CHR 0xEC, CHR 0x9D, CHR 0xB8] @ '' '' @ [CHR 0xEB, CHR 0xA7, CHR 0x88, CHR 0xEB, CHR 0xAC,
     CHR 0xB4, CHR 0xEB, CHR 0xA6, CHR 0xAC] @ '' '' @ [CHR 0xEB, CHR 0xAC, CHR 0xB8, CHR 0xEC,
     CHR 0x9E, CHR 0xA5] @ ''\<newline>\<newline>'' @ [CHR 0xEC, CHR 0xA0, CHR 0x84, CHR 0xEC,
     CHR 0xB2, CHR 0xB4, CHR 0xEB, CHR 0xA5, CHR 0xBC] @ '' '' @ [CHR 0xED, CHR 0x95, CHR 0x98,
     CHR 0xEB, CHR 0x82, CHR 0x98, CHR 0xEC, CHR 0x9D, CHR 0x98] @ '' '' @ [CHR 0xEC, CHR 0x9E,
     CHR 0x90, CHR 0xEC, CHR 0x97, CHR 0xB0, CHR 0xEC, CHR 0x8A, CHR 0xA4, CHR 0xEB, CHR 0x9F,
     CHR 0xAC, CHR 0xEC, CHR 0x9A, CHR 0xB4] @ '' '' @ [CHR 0xEC, CHR 0x9D, CHR 0xB4, CHR 0xEC,
     CHR 0x95, CHR 0xBC, CHR 0xEA, CHR 0xB8, CHR 0xB0, CHR 0xEB, CHR 0xA1, CHR 0x9C] @ '' '' @
     [CHR 0xEC, CHR 0x9E, CHR 0x91, CHR 0xEC, CHR 0x84, CHR 0xB1, CHR 0xED, CHR 0x95, CHR 0x98,
     CHR 0xEC, CHR 0x84, CHR 0xB8, CHR 0xEC, CHR 0x9A, CHR 0x94] @ ''.''"

definition final_message_0 :: string where \<comment> \<open>death message, lines 424-435, part 0\<close>
  "final_message_0 =
     ''\<newline>'' @ concat (replicate 39 [CHR 0xE2, CHR 0x95, CHR 0x90]) @
     ''\<newline>        ''"

definition final_message_1 :: string where \<comment> \<open>death message, lines 424-435, part 1\<close>
  "final_message_1 =
     [CHR 0xEC, CHR 0x9D, CHR 0x98] @ '' '' @ [CHR 0xEB, CHR 0xA7, CHR 0x88, CHR 0xEC,
     CHR 0xA7, CHR 0x80, CHR 0xEB, CHR 0xA7, CHR 0x89] @ ''\<newline>'' @
     concat (replicate 39 [CHR 0xE2, CHR 0x95, CHR 0x90]) @ ''\<newline>\<newline>''"

definition final_message_2 :: string where \<comment> \<open>death message, lines 424-435, part 2\<close>
  "final_message_2 =
     ''\<newline>\<newline>'' @ [CHR 0xEC, CHR 0xB2, CHR 0xB4, CHR 0xEB, CHR 0xA0, CHR 0xA5] @
     '': 0/''"

definition final_message_3 :: string where \<comment> \<open>death message, lines 424-435, part 3\<close>
  "final_message_3 =
     ''\<newline>\<newline>'' @ [CHR 0xEA, CHR 0xB2, CHR 0x8C, CHR 0xEC, CHR 0x9E, CHR 0x84,
     CHR 0xEC, CHR 0x9D, CHR 0xB4] @ '' '' @ [CHR 0xEC, CHR 0xA2, CHR 0x85, CHR 0xEB, CHR 0xA3,
     CHR 0x8C, CHR 0xEB, CHR 0x90, CHR 0x98, CHR 0xEC, CHR 0x97, CHR 0x88, CHR 0xEC, CHR 0x8A,
     CHR 0xB5, CHR 0xEB, CHR 0x8B, CHR 0x88, CHR 0xEB, CHR 0x8B, CHR 0xA4] @ ''.\<newline>'' @
     concat (replicate 39 [CHR 0xE2, CHR 0x95, CHR 0x90]) @ ''\<newline>''"

section \<open>Hybrid conversation history (process_game_request, lines 108-156)\<close>

text \<open>
  A document of the vector search, and the metadata of a stored conversation document.
  The program writes \<^verbatim>\<open>timestamp\<close> as an ISO string (add_scenario_data),
  \<^verbatim>\<open>sequence_number\<close> as an integer (restored dialogue) and \<^verbatim>\<open>role\<close> as a string;
  a key that is absent is \<open>None\<close>.
\<close>

record document =
  page_content :: string

record conv_meta =
  meta_timestamp :: "string option"
  meta_sequence_number :: "int option"
  meta_role :: "string option"

record conversation =
  content :: string
  timestamp :: string
  sequence :: int

definition RECENT_LIMIT :: nat where
  "RECENT_LIMIT = 10"

definition conversation_of :: "string \<times> conv_meta \<Rightarrow> conversation" where
  "conversation_of r =
     (case r of (doc, metadata) \<Rightarrow>
        \<lparr>content = doc,
         timestamp = (case meta_timestamp metadata of Some t \<Rightarrow> t | None \<Rightarrow> []),
         sequence = (case meta_sequence_number metadata of Some n \<Rightarrow> n | None \<Rightarrow> 0)\<rparr>)"

text \<open>
  The answer of \<^verbatim>\<open>vector_store.get(where={"type": "conversation"})\<close>: an exception
  (caught and logged as a warning, the list stays empty), no documents (\<open>None\<close>: the
  store is empty or the answer has no \<^verbatim>\<open>documents\<close>), or the documents zipped with
  their metadata. \<^verbatim>\<open>list.sort\<close> is stable, as \<^const>\<open>sort_key\<close> is.
\<close>

definition retrieve_conversations ::
  "exc + (string \<times> conv_meta) list option \<Rightarrow> conversation list" where
  "retrieve_conversations got =
     (case got of
        Inl e \<Rightarrow> []
      | Inr None \<Rightarrow> []
      | Inr (Some results) \<Rightarrow>
          sort_key (\<lambda>x. (timestamp x, sequence x)) (map conversation_of results))"

definition context_info_of :: "document list \<Rightarrow> string" where
  "context_info_of relevant_context =
     (if relevant_context \<noteq> [] then join ''\<newline>'' (map page_content relevant_context)
      else [])"

definition chat_summary_parts :: "document list \<Rightarrow> conversation list \<Rightarrow> string list" where
  "chat_summary_parts relevant_context all_conversations =
     (let total_count = length all_conversations in
      if total_count > RECENT_LIMIT then
        (let recent_conversations = drop (total_count - RECENT_LIMIT) all_conversations in
           (if relevant_context \<noteq> []
            then [txt_vector_header @ context_info_of relevant_context @ ''\<newline>'']
            else []) @
           (if recent_conversations \<noteq> []
            then [txt_recent_open @ str_nat (length recent_conversations) @ txt_turns_close @
                  join ''\<newline>'' (map content recent_conversations)]
            else []))
      else
        (if all_conversations \<noteq> []
         then [txt_all_open @ str_nat (length all_conversations) @ txt_turns_close @
               join ''\<newline>'' (map content all_conversations)]
         else []))"

definition chat_summary :: "document list \<Rightarrow> conversation list \<Rightarrow> string" where
  "chat_summary relevant_context all_conversations =
     (let parts = chat_summary_parts relevant_context all_conversations in
      if parts \<noteq> [] then join ''\<newline>'' parts else txt_new_session)"

section \<open>The environment and the state of a request\<close>

text \<open>
  Everything outside the repository (the game API, the language model, Chroma, the
  LangChain memory, the clock, the random generator) answers as the environment says:
  each field is the outcome of one external call, \<open>Inl\<close> or \<open>Some\<close> an exception it
  raises. \<open>prepare_game_context\<close> is the outcome of \<^verbatim>\<open>_prepare_game_context\<close>: the
  context text and, when the character list was fetched and is not empty, the list it
  stores in the session context. \<open>search_relevant_context\<close> covers
  \<^verbatim>\<open>get_vector_memory\<close> and the similarity search. \<open>format_value\<close> is what an
  f-string prints for a value that is not a string, \<open>str_of_exc\<close> is \<^verbatim>\<open>str(e)\<close>.
\<close>

record env =
  prepare_game_context :: "exc + string \<times> json option"
  search_relevant_context :: "exc + document list"
  stored_conversations :: "(string \<times> conv_meta) list option"
  store_get_error :: "exc option"
  gm_chain_run :: "string \<Rightarrow> string \<Rightarrow> string \<Rightarrow> string \<Rightarrow> exc + string"
  json_loads :: "string \<Rightarrow> exc + json"
  requests_patch :: "json \<Rightarrow> exc + json"
  memory_add_message :: "exc option"
  add_scenario_data :: "string \<Rightarrow> exc option"
  death_store_get :: "exc + (string \<times> conv_meta) list option"
  llm_invoke :: "string \<Rightarrow> exc + string"
  now_isoformat :: string
  random_choice :: nat
  str_of_exc :: "exc \<Rightarrow> string"
  format_value :: "json \<Rightarrow> string"

text \<open>
  \<^verbatim>\<open>vector_store.get(where={"type": "conversation"})\<close>: the conversation documents the
  store holds, zipped with their metadata (\<open>None\<close> when the store is empty or its answer
  has no \<^verbatim>\<open>documents\<close>), unless the call raises.
\<close>

definition store_get :: "env \<Rightarrow> exc + (string \<times> conv_meta) list option" where
  "store_get env =
     (case store_get_error env of
        Some e \<Rightarrow> Inl e
      | None \<Rightarrow> Inr (stored_conversations env))"

text \<open>
  The calls a request issues to the outside, in the order it issues them, with the
  arguments it passes: the chain of the game master, the PATCH request of the character
  update, \<^verbatim>\<open>memory_manager.add_message\<close>, \<^verbatim>\<open>add_scenario_data\<close> (with the text and the
  role), \<^verbatim>\<open>llm.invoke\<close>; and the warnings and errors it logs (information-level logging
  is left out). A call is recorded when it is issued, whether it returns or raises.
\<close>

datatype level = Warning | Error

datatype effect =
    GmChainRun string string string string
  | ApiPatch string json
  | MemoryAddMessage string string json
  | VectorAdd string string string
  | LlmInvoke string
  | Log level

text \<open>The state of one game: the \<^verbatim>\<open>characters\<close> entry of its session context
  (context_manager), and the calls issued so far.\<close>

record world =
  characters :: "json option"
  effects :: "effect list"

definition emit :: "effect \<Rightarrow> world \<Rightarrow> world" where
  "emit e w = w\<lparr>effects := effects w @ [e]\<rparr>"

definition py_str :: "env \<Rightarrow> json \<Rightarrow> string" where
  "py_str env v = (case v of JStr s \<Rightarrow> s | _ \<Rightarrow> format_value env v)"

section \<open>Parsing the answer of the model (lines 169-195)\<close>

definition parse_response :: "env \<Rightarrow> string \<Rightarrow> json \<times> effect list" where
  "parse_response env gm_response =
     (if gm_response = [] \<or> blank gm_response then
        (JDict [(''message'', JStr msg_empty_response),
                (''options'', JList [JStr opt_retry, JStr opt_check_situation]),
                (''need_image'', JBool False)], [Log Error])
      else
        (case json_loads env gm_response of
           Inr response_data \<Rightarrow> (response_data, [])
         | Inl e \<Rightarrow>
             if e = JSONDecodeError then
               (JDict [(''message'',
                          JStr (if gm_response \<noteq> [] then gm_response else msg_generation_failed)),
                       (''options'', JList [JStr opt_continue, JStr opt_check_situation,
                                            JStr opt_other_action]),
                       (''need_image'', JBool False)], [Log Error])
             else
               (JDict [(''message'', JStr msg_system_error),
                       (''options'', JList [JStr opt_retry]),
                       (''need_image'', JBool False)], [Log Error])))"

section \<open>\<^verbatim>\<open>_update_character_info\<close> (lines 321-369)\<close>

definition allowed_fields :: "string list" where
  "allowed_fields =
     [''name'', ''class'', ''level'', ''stats'', ''inventory'', ''avatar'', ''health'']"

text \<open>
  \<^verbatim>\<open>len(all_characters) == 0\<close> and \<^verbatim>\<open>all_characters[0]\<close> on a value that is true in a
  condition: a number has no length (TypeError), a dictionary has no key \<^verbatim>\<open>0\<close>
  (KeyError), a string gives its first character (which the merge then rejects,
  whatever it is).
\<close>

definition first_character :: "json \<Rightarrow> exc + json" where
  "first_character all_characters =
     (case all_characters of
        JList (x # xs) \<Rightarrow> Inr x
      | JDict d \<Rightarrow> Inl KeyError
      | JStr (c # s) \<Rightarrow> Inr (JStr [c])
      | _ \<Rightarrow> Inl TypeError)"

text \<open>
  A RequestException of the PATCH request is caught and logged, with a second error
  entry when the exception carries the body of a response; any other exception leaves
  the function. The session context is updated only when the request returns.
\<close>

definition update_character_info ::
  "env \<Rightarrow> world \<Rightarrow> string \<Rightarrow> dict \<Rightarrow> (exc + json option) \<times> world" where
  "update_character_info env w game_id update_data =
     (case characters w of
        None \<Rightarrow> (Inr None, emit (Log Warning) w)
      | Some all_characters \<Rightarrow>
          if \<not> truthy all_characters then (Inr None, emit (Log Warning) w)
          else
            (case first_character all_characters of
               Inl e \<Rightarrow> (Inl e, w)
             | Inr original_char_data \<Rightarrow>
                 (case deep_merge update_data original_char_data of
                    Inl e \<Rightarrow> (Inl e, w)
                  | Inr merged_data \<Rightarrow>
                      (let fields = filter (\<lambda>field. getitem update_data field \<noteq> None)
                                      allowed_fields
                       in if fields = [] then (Inr None, emit (Log Warning) w)
                          else
                            (case merged_data of
                               JDict merged \<Rightarrow>
                                 (let payload_to_send =
                                        JDict (map (\<lambda>field. (field, get_default merged field JNull))
                                                 fields);
                                      w1 = emit (ApiPatch game_id payload_to_send) w
                                  in case requests_patch env payload_to_send of
                                       Inl e \<Rightarrow>
                                         (case e of
                                            RequestException has_body \<Rightarrow>
                                              (Inr None,
                                               if has_body
                                               then emit (Log Error) (emit (Log Error) w1)
                                               else emit (Log Error) w1)
                                          | _ \<Rightarrow> (Inl e, w1))
                                     | Inr updated_char \<Rightarrow>
                                         (case all_characters of
                                            JList (x # xs) \<Rightarrow>
                                              (Inr (Some updated_char),
                                               w1\<lparr>characters :=
                                                    Some (JList (updated_char # xs))\<rparr>)
                                          | _ \<Rightarrow> (Inl TypeError, w1)))
                             | _ \<Rightarrow> (Inl AttributeError, w))))))"

section \<open>\<^verbatim>\<open>_handle_character_death\<close> (lines 371-460)\<close>

record history_entry =
  h_content :: string
  h_timestamp :: string
  h_role :: string

definition history_entry_of :: "string \<times> conv_meta \<Rightarrow> history_entry" where
  "history_entry_of r =
     (case r of (doc, metadata) \<Rightarrow>
        \<lparr>h_content = doc,
         h_timestamp = (case meta_timestamp metadata of Some t \<Rightarrow> t | None \<Rightarrow> []),
         h_role = (case meta_role metadata of Some r \<Rightarrow> r | None \<Rightarrow> ''unknown'')\<rparr>)"

definition conversation_history :: "(string \<times> conv_meta) list option \<Rightarrow> history_entry list" where
  "conversation_history results =
     (case results of
        None \<Rightarrow> []
      | Some rs \<Rightarrow> sort_key h_timestamp (map history_entry_of rs))"

text \<open>\<^verbatim>\<open>"\\n".join([conv['content'] for conv in conversation_history[-20:]])\<close>.\<close>

definition history_text :: "(string \<times> conv_meta) list option \<Rightarrow> string" where
  "history_text results =
     (let history = conversation_history results
      in join ''\<newline>'' (map h_content (drop (length history - 20) history)))"

definition death_prompt :: "env \<Rightarrow> dict \<Rightarrow> string \<Rightarrow> string \<Rightarrow> json \<Rightarrow> string" where
  "death_prompt env character history final_action death_context =
     death_prompt_0 @ py_str env (get_default character ''name'' (JStr txt_unknown)) @
     death_prompt_1 @ py_str env (get_default character ''class'' (JStr txt_unknown)) @
     death_prompt_2 @ py_str env (get_default character ''level'' (JNum 1)) @
     death_prompt_3 @ history @
     death_prompt_4 @ final_action @
     death_prompt_5 @ py_str env death_context @
     death_prompt_6"

definition final_message :: "env \<Rightarrow> dict \<Rightarrow> string \<Rightarrow> string" where
  "final_message env character death_summary =
     final_message_0 @ py_str env (get_default character ''name'' (JStr txt_adventurer)) @
     final_message_1 @ death_summary @
     final_message_2 @ py_str env (get_default character ''maxHealth'' (JNum 0)) @
     final_message_3"

definition death_fallback :: "env \<Rightarrow> dict \<Rightarrow> json" where
  "death_fallback env character =
     JDict [(''success'', JBool True),
            (''message'',
               JStr (py_str env (get_default character ''name'' (JStr txt_character)) @ txt_fallen)),
            (''options'', JList []),
            (''need_image'', JBool False),
            (''game_over'', JBool True),
            (''timestamp'', JStr (now_isoformat env))]"

definition handle_character_death ::
  "env \<Rightarrow> world \<Rightarrow> string \<Rightarrow> dict \<Rightarrow> string \<Rightarrow> json \<Rightarrow> json \<times> world" where
  "handle_character_death env w game_id character final_action death_context =
     (case death_store_get env of
        Inl e \<Rightarrow> (death_fallback env character, emit (Log Error) w)
      | Inr results \<Rightarrow>
          (let prompt = death_prompt env character (history_text results) final_action
                          death_context;
               w1 = emit (LlmInvoke prompt) w
           in case llm_invoke env prompt of
                Inl e \<Rightarrow> (death_fallback env character, emit (Log Error) w1)
              | Inr death_summary \<Rightarrow>
                  (JDict [(''success'', JBool True),
                          (''message'', JStr (final_message env character death_summary)),
                          (''options'', JList []),
                          (''need_image'', JBool False),
                          (''game_over'', JBool True),
                          (''character_death'', JBool True),
                          (''character_name'', get_default character ''name'' JNull),
                          (''timestamp'', JStr (now_isoformat env))], w1)))"

section \<open>Storing the exchange (lines 211-229 and 553-587)\<close>

text \<open>The texts written to the vector store: \<^verbatim>\<open>f"\<close>user prefix\<^verbatim>\<open>{user_input}"\<close>, and
  \<^verbatim>\<open>f"GM: {ai_response}"\<close> followed by the image line when there is an image URL.\<close>

definition user_input_text :: "string \<Rightarrow> string" where
  "user_input_text user_input = txt_user_prefix @ user_input"

definition ai_response_text :: "env \<Rightarrow> json \<Rightarrow> json \<Rightarrow> string" where
  "ai_response_text env ai_response image_url =
     ''GM: '' @ py_str env ai_response @
     (if truthy image_url then txt_image_open @ py_str env image_url @ '']'' else [])"

text \<open>A failure of the vector store is caught and logged as a warning.\<close>

definition add_user_input_to_vector_storage :: "env \<Rightarrow> world \<Rightarrow> string \<Rightarrow> string \<Rightarrow> world" where
  "add_user_input_to_vector_storage env w game_id user_input =
     (let w1 = emit (VectorAdd game_id (user_input_text user_input) ''user'') w
      in case add_scenario_data env (user_input_text user_input) of
           None \<Rightarrow> w1
         | Some e \<Rightarrow> emit (Log Warning) w1)"

definition add_ai_response_to_vector_storage ::
  "env \<Rightarrow> world \<Rightarrow> string \<Rightarrow> json \<Rightarrow> json \<Rightarrow> world" where
  "add_ai_response_to_vector_storage env w game_id ai_response image_url =
     (let w1 = emit (VectorAdd game_id (ai_response_text env ai_response image_url)
                       ''assistant'') w
      in case add_scenario_data env (ai_response_text env ai_response image_url) of
           None \<Rightarrow> w1
         | Some e \<Rightarrow> emit (Log Warning) w1)"

section \<open>\<^verbatim>\<open>process_game_request\<close> (lines 84-260) and \<^verbatim>\<open>_handle_error\<close> (lines 589-604)\<close>

text \<open>The test \<^verbatim>\<open>updated_char and updated_char.get('health', 1) <= 0\<close>: only a dictionary
  has \<^verbatim>\<open>get\<close>; \<^verbatim>\<open>False <= 0\<close> holds in Python, and a value that is no number cannot
  be compared with \<^verbatim>\<open>0\<close>.\<close>

definition health_le_zero :: "json \<Rightarrow> exc + bool" where
  "health_le_zero h =
     (case h of JNum n \<Rightarrow> Inr (n \<le> 0) | JBool b \<Rightarrow> Inr (\<not> b) | _ \<Rightarrow> Inl TypeError)"

definition is_dead :: "json \<Rightarrow> exc + bool" where
  "is_dead updated_char =
     (if \<not> truthy updated_char then Inr False
      else case updated_char of
             JDict c \<Rightarrow> health_le_zero (get_default c ''health'' (JNum 1))
           | _ \<Rightarrow> Inl AttributeError)"

text \<open>Step 6. The result \<open>Inr (Some r)\<close> is the early return of the death response.\<close>

definition character_step ::
  "env \<Rightarrow> world \<Rightarrow> string \<Rightarrow> string \<Rightarrow> dict \<Rightarrow> (exc + json option) \<times> world" where
  "character_step env w game_id user_input response_data =
     (case getitem response_data ''update_character'' of
        None \<Rightarrow> (Inr None, w)
      | Some update_info \<Rightarrow>
          (case update_info of
             JDict ui \<Rightarrow>
               if ui = [] then (Inr None, emit (Log Warning) w)
               else
                 (case update_character_info env w game_id ui of
                    (Inl e, w1) \<Rightarrow> (Inl e, w1)
                  | (Inr None, w1) \<Rightarrow> (Inr None, w1)
                  | (Inr (Some updated_char), w1) \<Rightarrow>
                      (case is_dead updated_char of
                         Inl e \<Rightarrow> (Inl e, w1)
                       | Inr dead \<Rightarrow>
                           if \<not> dead then (Inr None, w1)
                           else
                             (case getitem response_data ''message'' of
                                None \<Rightarrow> (Inl KeyError, w1)
                              | Some death_context \<Rightarrow>
                                  (case updated_char of
                                     JDict character \<Rightarrow>
                                       (case handle_character_death env w1 game_id character
                                               user_input death_context of
                                          (death_response, w2) \<Rightarrow> (Inr (Some death_response), w2))
                                   | _ \<Rightarrow> (Inl AttributeError, w1)))))
           | _ \<Rightarrow> (Inr None, emit (Log Warning) w)))"

text \<open>Steps 7 to 9 and the result.\<close>

definition finish_request ::
  "env \<Rightarrow> world \<Rightarrow> string \<Rightarrow> string \<Rightarrow> document list \<Rightarrow> dict \<Rightarrow> (exc + json) \<times> world" where
  "finish_request env w game_id user_input relevant_context response_data =
     (case getitem response_data ''message'' of
        None \<Rightarrow> (Inl KeyError, w)
      | Some message \<Rightarrow>
          (let w1 = emit (MemoryAddMessage game_id user_input message) w in
           case memory_add_message env of
             Some e \<Rightarrow> (Inl e, w1)
           | None \<Rightarrow>
               (let w2 = add_user_input_to_vector_storage env w1 game_id user_input;
                    w3 = add_ai_response_to_vector_storage env w2 game_id message
                           (get_default response_data ''image_url'' JNull);
                    need_image = get_default response_data ''need_image'' (JBool False);
                    image_prompt = get_default response_data ''image_prompt'' JNull;
                    image_info =
                      (if truthy need_image \<and> truthy image_prompt
                       then JDict [(''should_generate'', JBool True),
                                   (''prompt'', image_prompt),
                                   (''reason'', JStr ''Scene visualization'')]
                       else JNull)
                in (Inr (JDict [(''success'', JBool True),
                                (''message'', message),
                                (''options'', get_default response_data ''options'' (JList [])),
                                (''need_image'', need_image),
                                (''image_info'', image_info),
                                (''relevant_context_found'', JBool (relevant_context \<noteq> [])),
                                (''timestamp'', JStr (now_isoformat env))]), w3))))"

text \<open>Steps 1 to 5 and the parsing of the answer: the documents of the vector search
  and the parsed answer, or the exception that leaves the \<^verbatim>\<open>try\<close> block.\<close>

definition ask_game_master ::
  "env \<Rightarrow> world \<Rightarrow> string \<Rightarrow> string \<Rightarrow> (exc + document list \<times> json) \<times> world" where
  "ask_game_master env w game_id user_input =
     (case prepare_game_context env of
        Inl e \<Rightarrow> (Inl e, w)
      | Inr (game_context, fetched) \<Rightarrow>
          (let w1 = (case fetched of Some cs \<Rightarrow> w\<lparr>characters := Some cs\<rparr> | None \<Rightarrow> w) in
           case search_relevant_context env of
             Inl e \<Rightarrow> (Inl e, w1)
           | Inr relevant_context \<Rightarrow>
               (let context_info = context_info_of relevant_context;
                    w2 = (case store_get env of Inl e \<Rightarrow> emit (Log Warning) w1 | Inr r \<Rightarrow> w1);
                    all_conversations = retrieve_conversations (store_get env);
                    summary = chat_summary relevant_context all_conversations;
                    w3 = emit (GmChainRun game_context summary context_info user_input) w2
                in case gm_chain_run env game_context summary context_info user_input of
                     Inl e \<Rightarrow> (Inl e, w3)
                   | Inr gm_response \<Rightarrow>
                       (case parse_response env gm_response of
                          (response_data, logs) \<Rightarrow>
                            (Inr (relevant_context, response_data),
                             w3\<lparr>effects := effects w3 @ logs\<rparr>)))))"

text \<open>The body of the \<^verbatim>\<open>try\<close>. A value of \<^verbatim>\<open>json.loads\<close> that is no dictionary ends in a
  TypeError before any further call is issued: the membership test fails on a number,
  and the subscript \<^verbatim>\<open>["message"]\<close> or \<^verbatim>\<open>["update_character"]\<close> fails on a list or a
  string.\<close>

definition process_body :: "env \<Rightarrow> world \<Rightarrow> string \<Rightarrow> string \<Rightarrow> (exc + json) \<times> world" where
  "process_body env w game_id user_input =
     (case ask_game_master env w game_id user_input of
        (Inl e, w4) \<Rightarrow> (Inl e, w4)
      | (Inr (relevant_context, response_data), w4) \<Rightarrow>
          (case response_data of
             JDict rd \<Rightarrow>
               (case character_step env w4 game_id user_input rd of
                  (Inl e, w5) \<Rightarrow> (Inl e, w5)
                | (Inr (Some death_response), w5) \<Rightarrow> (Inr death_response, w5)
                | (Inr None, w5) \<Rightarrow>
                    finish_request env w5 game_id user_input relevant_context rd)
           | _ \<Rightarrow> (Inl TypeError, w4)))"

definition error_responses :: "string list" where
  "error_responses = [err_response_0, err_response_1, err_response_2]"

definition handle_error :: "env \<Rightarrow> exc \<Rightarrow> json" where
  "handle_error env error =
     JDict [(''success'', JBool False),
            (''message'', JStr (error_responses ! (random_choice env mod 3))),
            (''options'', JList [JStr opt_retry, JStr opt_check_status, JStr opt_help]),
            (''error'', JStr (str_of_exc env error)),
            (''timestamp'', JStr (now_isoformat env))]"

definition process_game_request :: "env \<Rightarrow> world \<Rightarrow> string \<Rightarrow> string \<Rightarrow> json \<times> world" where
  "process_game_request env w game_id user_input =
     (case process_body env w game_id user_input of
        (Inr result, w') \<Rightarrow> (result, w')
      | (Inl e, w') \<Rightarrow> (handle_error env e, emit (Log Error) (emit (Log Error) w')))"

definition json_get :: "json \<Rightarrow> string \<Rightarrow> json option" where
  "json_get v k = (case v of JDict d \<Rightarrow> getitem d k | _ \<Rightarrow> None)"

text \<open>The calls of steps 7 to 9 when nothing escapes them, in their order.\<close>

definition persist_trace :: "env \<Rightarrow> string \<Rightarrow> string \<Rightarrow> json \<Rightarrow> json \<Rightarrow> effect list" where
  "persist_trace env game_id user_input message image_url =
     MemoryAddMessage game_id user_input message #
     VectorAdd game_id (user_input_text user_input) ''user'' #
       (case add_scenario_data env (user_input_text user_input) of
          None \<Rightarrow> [] | Some e \<Rightarrow> [Log Warning]) @
     VectorAdd game_id (ai_response_text env message image_url) ''assistant'' #
       (case add_scenario_data env (ai_response_text env message image_url) of
          None \<Rightarrow> [] | Some e \<Rightarrow> [Log Warning])"

text \<open>The calls a request has issued since the state \<open>w\<close>, and the kinds of calls.\<close>

definition issued :: "world \<Rightarrow> world \<Rightarrow> effect list" where
  "issued w w' = drop (length (effects w)) (effects w')"



section \<open>Example environments\<close>

text \<open>
  A request in a game with one character: the model answers with a message and a health
  update, the game API returns the updated character, every external call succeeds.
  The text \<open>''{json}''\<close> abbreviates the JSON text of the answer, which \<open>json_loads\<close>
  turns into \<open>answer health\<close>.
\<close>

definition ann :: "int \<Rightarrow> json" where
  "ann health =
     JDict [(''name'', JStr ''Ann''), (''health'', JNum health), (''maxHealth'', JNum 10)]"

definition answer :: "int \<Rightarrow> json" where
  "answer health =
     JDict [(''message'', JStr ''The orc strikes.''),
            (''options'', JList [JStr ''Run'', JStr ''Fight'']),
            (''update_character'', JDict [(''health'', JNum health)])]"

definition env_example :: "int \<Rightarrow> env" where
  "env_example health =
     \<lparr>prepare_game_context = Inr (''The cave'', Some (JList [ann 3])),
      search_relevant_context = Inr [],
      stored_conversations = None,
      store_get_error = None,
      gm_chain_run = (\<lambda>game_context summary relevant_context user_input. Inr ''{json}''),
      json_loads = (\<lambda>text. Inr (answer health)),
      requests_patch = (\<lambda>payload. Inr (ann health)),
      memory_add_message = None,
      add_scenario_data = (\<lambda>text. None),
      death_store_get = Inr None,
      llm_invoke = (\<lambda>prompt. Inr ''Ann fell in the cave.''),
      now_isoformat = ''2025-01-01T00:00:00'',
      random_choice = 0,
      str_of_exc = (\<lambda>e. ''error''),
      format_value = (\<lambda>v. ''10'')\<rparr>"

definition world_example :: world where
  "world_example = \<lparr>characters = None, effects = []\<rparr>"

section \<open>Chat history in MongoDB (data/mongo_manager.py, lines 221-266)\<close>

text \<open>
  The collection \<^verbatim>\<open>chat_history\<close> is the list of its documents in insertion order;
  the documents of all games share it. A time stamp is a reading of the UTC clock.
\<close>

record chat_doc =
  doc_game_id :: string
  sequence_number :: int
  doc_user_input :: string
  doc_ai_response :: string
  doc_metadata :: dict
  doc_timestamp :: int

definition of_game :: "string \<Rightarrow> chat_doc list \<Rightarrow> chat_doc list" where
  "of_game game_id collection = filter (\<lambda>d. doc_game_id d = game_id) collection"

text \<open>\<^verbatim>\<open>find_one({"game_id": game_id}, sort=[("sequence_number", DESCENDING)])\<close>.\<close>

definition find_one_max :: "chat_doc list \<Rightarrow> string \<Rightarrow> chat_doc option" where
  "find_one_max collection game_id =
     (case sort_key (\<lambda>d. - sequence_number d) (of_game game_id collection) of
        [] \<Rightarrow> None
      | d # ds \<Rightarrow> Some d)"

text \<open>\<^verbatim>\<open>insert_one\<close> under the unique index on \<^verbatim>\<open>(game_id, sequence_number)\<close>.\<close>

definition insert_one :: "chat_doc list \<Rightarrow> chat_doc \<Rightarrow> exc + chat_doc list" where
  "insert_one collection d =
     (if \<exists>x \<in> set collection.
           doc_game_id x = doc_game_id d \<and> sequence_number x = sequence_number d
      then Inl DuplicateKeyError
      else Inr (collection @ [d]))"

text \<open>
  \<^verbatim>\<open>add_chat_message\<close> calls itself again when the insertion meets a duplicate key.
  \<open>clock n\<close> is the clock at the \<open>n\<close>-th attempt. The result is the collection after
  the insertion and the inserted document; \<open>None\<close> is a call that does not return.
\<close>

partial_function (option) add_chat_message ::
  "chat_doc list \<Rightarrow> string \<Rightarrow> string \<Rightarrow> string \<Rightarrow> dict option \<Rightarrow> (nat \<Rightarrow> int) \<Rightarrow> nat \<Rightarrow>
     (chat_doc list \<times> chat_doc) option" where
  "add_chat_message collection game_id user_input ai_response metadata clock attempt =
     (let next_sequence =
            (case find_one_max collection game_id of
               Some max_seq_doc \<Rightarrow> sequence_number max_seq_doc + 1
             | None \<Rightarrow> 1);
          message_data =
            \<lparr>doc_game_id = game_id,
             sequence_number = next_sequence,
             doc_user_input = user_input,
             doc_ai_response = ai_response,
             doc_metadata = (case metadata of Some m \<Rightarrow> if m \<noteq> [] then m else [] | None \<Rightarrow> []),
             doc_timestamp = clock attempt\<rparr>
      in case insert_one collection message_data of
           Inr collection' \<Rightarrow> Some (collection', message_data)
         | Inl e \<Rightarrow>
             add_chat_message collection game_id user_input ai_response metadata clock
               (Suc attempt))"

text \<open>\<^verbatim>\<open>cursor.limit(n)\<close> of the driver: \<open>0\<close> is no limit, a negative limit is its
  absolute value.\<close>

definition cursor_limit :: "int \<Rightarrow> 'a list \<Rightarrow> 'a list" where
  "cursor_limit n xs = (if n = 0 then xs else take (nat \<bar>n\<bar>) xs)"

definition get_chat_history :: "chat_doc list \<Rightarrow> string \<Rightarrow> int \<Rightarrow> chat_doc list" where
  "get_chat_history collection game_id limit =
     (let messages =
            cursor_limit limit (sort_key (\<lambda>d. - sequence_number d) (of_game game_id collection))
      in sort_key sequence_number messages)"

text \<open>Sequence numbers of a game, in insertion order: positive and strictly
  increasing (hence unique).\<close>

definition game_seqs :: "chat_doc list \<Rightarrow> string \<Rightarrow> int list" where
  "game_seqs collection g =
     map sequence_number (filter (\<lambda>d. doc_game_id d = g) collection)"

definition seq_ok :: "chat_doc list \<Rightarrow> bool" where
  "seq_ok collection =
     (\<forall>g \<in> set (map doc_game_id collection).
        sorted_wrt (<)
          (map sequence_number (filter (\<lambda>d. doc_game_id d = g) collection)) \<and>
        (\<forall>d \<in> set collection. doc_game_id d = g \<longrightarrow> 0 < sequence_number d))"

section \<open>\<^verbatim>\<open>wait_for_completion\<close> (comfy_manager.py, lines 368-384)\<close>

text \<open>
  The clock and the two job tables belong to the environment. \<open>clock 0\<close> is
  \<^verbatim>\<open>start_time\<close> and \<open>clock k\<close>, for \<open>k\<close> from 1, is the reading of \<^verbatim>\<open>time.time()\<close> in the
  \<open>k\<close>-th test of the loop condition, in milliseconds; the timeout is in seconds.
  \<open>in_completed k\<close> and \<open>in_pending k\<close> are what the two membership tests of the \<open>k\<close>-th
  round find (the websocket thread changes both tables meanwhile). Between two rounds
  lies \<^verbatim>\<open>time.sleep(1)\<close>. The result is the value returned, the number of the last clock
  reading, and whether the warning of the timeout was logged; \<open>None\<close> is a call that
  does not return.
\<close>

partial_function (option) wait_loop ::
  "(nat \<Rightarrow> int) \<Rightarrow> (nat \<Rightarrow> bool) \<Rightarrow> (nat \<Rightarrow> bool) \<Rightarrow> int \<Rightarrow> nat \<Rightarrow>
     (bool \<times> nat \<times> bool) option" where
  "wait_loop clock in_completed in_pending timeout k =
     (if clock k - clock 0 < 1000 * timeout then
        (if in_completed k then Some (True, k, False)
         else if \<not> in_pending k then Some (False, k, False)
         else wait_loop clock in_completed in_pending timeout (Suc k))
      else Some (False, k, True))"

text \<open>\<^verbatim>\<open>if not timeout: timeout = self.timeout\<close> replaces a missing timeout and the timeout
  0.\<close>

definition wait_for_completion ::
  "int \<Rightarrow> (nat \<Rightarrow> int) \<Rightarrow> (nat \<Rightarrow> bool) \<Rightarrow> (nat \<Rightarrow> bool) \<Rightarrow> int option \<Rightarrow>
     (bool \<times> nat \<times> bool) option" where
  "wait_for_completion self_timeout clock in_completed in_pending timeout =
     (let timeout' = (case timeout of
                        None \<Rightarrow> self_timeout
                      | Some t \<Rightarrow> if t = 0 then self_timeout else t)
      in wait_loop clock in_completed in_pending timeout' 1)"

text \<open>Clock readings of a wait in which every round takes one millisecond more than the
  second it sleeps.\<close>

definition slow_clock :: "nat \<Rightarrow> int" where
  "slow_clock k = (if k = 0 then 0 else 1001 * (int k - 1))"

text \<open>Clock readings of a wait whose first test follows the start at once and whose
  sleeps take one second each.\<close>

definition exact_clock :: "nat \<Rightarrow> int" where
  "exact_clock k = (if k = 0 then 0 else 1000 * (int k - 1))"

text \<open>The number \<^verbatim>\<open>add_chat_message\<close> gives to the next message of a game.\<close>

definition next_sequence :: "chat_doc list \<Rightarrow> string \<Rightarrow> int" where
  "next_sequence collection g =
     (if game_seqs collection g = [] then 1 else Max (set (game_seqs collection g)) + 1)"

text \<open>Two messages of one game; the clock stood at 50 at the first insertion and at 30
  at the second.\<close>

definition message_1 :: chat_doc where
  "message_1 = \<lparr>doc_game_id = ''g1'', sequence_number = 1, doc_user_input = ''hi'',
                 doc_ai_response = ''hello'', doc_metadata = [], doc_timestamp = 50\<rparr>"

definition message_2 :: chat_doc where
  "message_2 = \<lparr>doc_game_id = ''g1'', sequence_number = 2, doc_user_input = ''go'',
                 doc_ai_response = ''ok'', doc_metadata = [], doc_timestamp = 30\<rparr>"

text \<open>A message of another game.\<close>

definition message_3 :: chat_doc where
  "message_3 = \<lparr>doc_game_id = ''g2'', sequence_number = 1, doc_user_input = ''look'',
                 doc_ai_response = ''a door'', doc_metadata = [], doc_timestamp = 40\<rparr>"

text \<open>Eleven stored conversation documents, the newest first.\<close>

definition turn :: "string \<Rightarrow> string \<times> conv_meta" where
  "turn t = (''turn '' @ t,
             \<lparr>meta_timestamp = Some t, meta_sequence_number = None, meta_role = Some ''user''\<rparr>)"

definition eleven_turns :: "(string \<times> conv_meta) list" where
  "eleven_turns = map turn [''11'', ''10'', ''09'', ''08'', ''07'', ''06'', ''05'', ''04'',
                            ''03'', ''02'', ''01'']"

section \<open>Properties of \<open>deep_merge\<close>\<close>

lemma getitem_setitem:
  "getitem (setitem d k v) k' = (if k' = k then Some v else getitem d k')"
  by (induction d) auto

lemma getitem_map_of: "getitem d k = map_of d k"
  by (induction d) auto

lemma getitem_None_iff: "getitem d k = None \<longleftrightarrow> k \<notin> fst ` set d"
  by (simp add: getitem_map_of map_of_eq_None_iff)

lemma keys_setitem_in: "k \<in> fst ` set d \<Longrightarrow> map fst (setitem d k v) = map fst d"
  by (induction d) force+

lemma keys_setitem_notin: "k \<notin> fst ` set d \<Longrightarrow> map fst (setitem d k v) = map fst d @ [k]"
  by (induction d) auto

lemma setitem_setdefault:
  "setitem (fst (setdefault d k dflt)) k v = setitem d k v"
proof -
  have "setitem (setitem d k dflt) k v = setitem d k v"
    by (induction d) auto
  then show ?thesis
    by (simp add: setdefault_def split: option.splits)
qed

lemma deep_merge_Cons_dict:
  "deep_merge ((key, JDict sub) # source) (JDict d) =
     (case deep_merge sub (snd (setdefault d key (JDict []))) of
        Inl e \<Rightarrow> Inl e
      | Inr node' \<Rightarrow> deep_merge source (JDict (setitem d key node')))"
proof -
  obtain d1 node where sd: "setdefault d key (JDict []) = (d1, node)"
    by (cases "setdefault d key (JDict [])")
  have "setitem d1 key v = setitem d key v" for v
    using setitem_setdefault [of d key "JDict []" v] sd by simp
  with sd show ?thesis
    by (simp add: deep_merge.simps(2) split: sum.splits)
qed

lemma deep_merge_Cons_other:
  "\<forall>sub. val \<noteq> JDict sub \<Longrightarrow>
   deep_merge ((key, val) # source) (JDict d) = deep_merge source (JDict (setitem d key val))"
  by (cases val) (simp_all add: deep_merge.simps(2))

lemma deep_merge_returns_dict:
  "deep_merge source (JDict d) = Inr r \<Longrightarrow> \<exists>d'. r = JDict d'"
proof (induction source arbitrary: d)
  case Nil
  then show ?case by auto
next
  case (Cons p source)
  obtain key val where p: "p = (key, val)" by (cases p)
  show ?case
  proof (cases "\<exists>sub. val = JDict sub")
    case True
    then obtain sub where "val = JDict sub" by blast
    with Cons.prems p show ?thesis
      by (auto simp: deep_merge_Cons_dict split: sum.splits dest: Cons.IH)
  next
    case False
    with Cons.prems p show ?thesis
      by (auto simp: deep_merge_Cons_other dest: Cons.IH)
  qed
qed

lemma node_setitem_other:
  "k \<noteq> key \<Longrightarrow> snd (setdefault (setitem d key v) k dflt) = snd (setdefault d k dflt)"
  by (simp add: setdefault_def getitem_setitem split: option.splits)

lemma deep_merge_step:
  assumes "deep_merge ((k, val) # source) (JDict d) = Inr r"
  shows "\<exists>v. deep_merge source (JDict (setitem d k v)) = Inr r \<and>
    (\<forall>sub. val = JDict sub \<longrightarrow> deep_merge sub (snd (setdefault d k (JDict []))) = Inr v) \<and>
    ((\<forall>sub. val \<noteq> JDict sub) \<longrightarrow> v = val)"
proof (cases "\<exists>sub. val = JDict sub")
  case True
  then obtain sub where val: "val = JDict sub" by blast
  with assms obtain node' where
    "deep_merge sub (snd (setdefault d k (JDict []))) = Inr node'"
    "deep_merge source (JDict (setitem d k node')) = Inr r"
    by (auto simp: deep_merge_Cons_dict split: sum.splits)
  with val show ?thesis by auto
next
  case False
  with assms show ?thesis
    by (auto simp: deep_merge_Cons_other)
qed

lemma deep_merge_untouched:
  assumes "deep_merge source (JDict d) = Inr (JDict d')" and "key \<notin> fst ` set source"
  shows "getitem d' key = getitem d key"
  using assms
proof (induction source arbitrary: d)
  case Nil
  then show ?case by simp
next
  case (Cons p source)
  obtain k val where p: "p = (k, val)" by (cases p)
  from deep_merge_step [OF Cons.prems(1) [unfolded p]] obtain v where
    "deep_merge source (JDict (setitem d k v)) = Inr (JDict d')"
    by blast
  with Cons.IH [of "setitem d k v"] Cons.prems(2) p show ?case
    by (simp add: getitem_setitem)
qed

lemma deep_merge_entry:
  assumes "distinct (map fst source)" and "deep_merge source (JDict d) = Inr (JDict d')"
    and "getitem source key = Some val"
  shows "\<exists>v. getitem d' key = Some v \<and>
           (\<forall>sub. val = JDict sub \<longrightarrow> deep_merge sub (snd (setdefault d key (JDict []))) = Inr v) \<and>
           ((\<forall>sub. val \<noteq> JDict sub) \<longrightarrow> v = val)"
  using assms
proof (induction source arbitrary: d)
  case Nil
  then show ?case by simp
next
  case (Cons p source)
  obtain k x where p: "p = (k, x)" by (cases p)
  from Cons.prems(1) p have dist: "distinct (map fst source)" and notin: "k \<notin> fst ` set source"
    by auto
  from deep_merge_step [OF Cons.prems(2) [unfolded p]] obtain v where
    rest: "deep_merge source (JDict (setitem d k v)) = Inr (JDict d')" and
    vd: "\<And>sub. x = JDict sub \<Longrightarrow> deep_merge sub (snd (setdefault d k (JDict []))) = Inr v" and
    vo: "(\<forall>sub. x \<noteq> JDict sub) \<Longrightarrow> v = x"
    by blast
  show ?case
  proof (cases "key = k")
    case True
    with Cons.prems(3) p have "val = x" by simp
    moreover from deep_merge_untouched [OF rest notin] have "getitem d' k = Some v"
      by (simp add: getitem_setitem)
    ultimately show ?thesis
      using True vd vo by auto
  next
    case False
    with Cons.prems(3) p have "getitem source key = Some val" by simp
    from Cons.IH [OF dist rest this] False show ?thesis
      by (simp add: node_setitem_other)
  qed
qed

lemma deep_merge_raises:
  assumes "distinct (map fst source)" and "deep_merge source (JDict d) = Inl e"
  shows "\<exists>key sub. getitem source key = Some (JDict sub) \<and>
           deep_merge sub (snd (setdefault d key (JDict []))) = Inl e"
  using assms
proof (induction source arbitrary: d)
  case Nil
  then show ?case by simp
next
  case (Cons p source)
  obtain k val where p: "p = (k, val)" by (cases p)
  from Cons.prems p have dist: "distinct (map fst source)" and notin: "getitem source k = None"
    by (auto simp: getitem_None_iff)
  have step: "\<exists>key sub. getitem (p # source) key = Some (JDict sub) \<and>
           deep_merge sub (snd (setdefault d key (JDict []))) = Inl e"
    if r: "deep_merge source (JDict (setitem d k v)) = Inl e" for v
  proof -
    from Cons.IH [OF dist r] obtain key sub where
      g: "getitem source key = Some (JDict sub)" and
      m: "deep_merge sub (snd (setdefault (setitem d k v) key (JDict []))) = Inl e"
      by blast
    from g notin have "key \<noteq> k" by auto
    with g m p show ?thesis
      by (auto simp: node_setitem_other intro!: exI [of _ key])
  qed
  show ?case
  proof (cases "\<exists>sub. val = JDict sub")
    case True
    then obtain sub where val: "val = JDict sub" by blast
    show ?thesis
    proof (cases "deep_merge sub (snd (setdefault d k (JDict [])))")
      case (Inl e')
      with Cons.prems(2) p val have "e' = e"
        by (simp add: deep_merge_Cons_dict)
      with Inl p val show ?thesis
        by (auto intro!: exI [of _ k])
    next
      case (Inr node')
      with Cons.prems(2) p val show ?thesis
        by (intro step [of node']) (simp add: deep_merge_Cons_dict)
    qed
  next
    case False
    with Cons.prems(2) p show ?thesis
      by (intro step [of val]) (simp add: deep_merge_Cons_other)
  qed
qed

text \<open>
  Claim C2. For a source with distinct keys (every Python dictionary) and a destination
  dictionary: when \<open>deep_merge\<close> returns, then for each key of the source whose value
  is a dictionary, that value has been merged recursively into what \<^verbatim>\<open>setdefault\<close>
  returned for the key (the destination's value, or a fresh empty dictionary when the
  key was absent), and the outcome is the destination's value for the key; a list
  value is the destination's value for the key as it is; and so is any other value.
  When \<open>deep_merge\<close> raises, the exception is the one that a recursive merge into the
  destination's value raised.
\<close>

theorem deep_merge_by_key:
  assumes "distinct (map fst source)"
  shows "case deep_merge source (JDict d) of
           Inr r \<Rightarrow>
             (\<exists>d'. r = JDict d' \<and>
               (\<forall>key sub. getitem source key = Some (JDict sub) \<longrightarrow>
                  (\<exists>node'. deep_merge sub (snd (setdefault d key (JDict []))) = Inr node' \<and>
                     getitem d' key = Some node')) \<and>
               (\<forall>key items. getitem source key = Some (JList items) \<longrightarrow>
                  getitem d' key = Some (JList items)) \<and>
               (\<forall>key v. getitem source key = Some v \<longrightarrow> (\<forall>sub. v \<noteq> JDict sub) \<longrightarrow>
                  getitem d' key = Some v))
         | Inl e \<Rightarrow>
             (\<exists>key sub. getitem source key = Some (JDict sub) \<and>
                deep_merge sub (snd (setdefault d key (JDict []))) = Inl e)"
proof (cases "deep_merge source (JDict d)")
  case (Inl e)
  with deep_merge_raises [OF assms] show ?thesis by simp
next
  case (Inr r)
  then obtain d' where r: "r = JDict d'"
    using deep_merge_returns_dict by blast
  note ent = deep_merge_entry [OF assms Inr [unfolded r]]
  have a: "\<exists>node'. deep_merge sub (snd (setdefault d key (JDict []))) = Inr node' \<and>
                     getitem d' key = Some node'"
    if "getitem source key = Some (JDict sub)" for key sub
    using ent [OF that] by auto
  have b: "getitem d' key = Some v"
    if "getitem source key = Some v" "\<forall>sub. v \<noteq> JDict sub" for key v
    using ent [OF that(1)] that(2) by auto
  have c: "getitem d' key = Some (JList items)"
    if "getitem source key = Some (JList items)" for key items
    using b [OF that] by simp
  from a b c show ?thesis
    unfolding Inr r by simp
qed

theorem deep_merge_by_key_witness:
  "distinct (map fst [(''stats'', JDict [(''str'', JNum 3)]), (''inventory'', JList [JStr ''rope'']), (''health'', JNum 7)]) \<and>
   deep_merge [(''stats'', JDict [(''str'', JNum 3)]), (''inventory'', JList [JStr ''rope'']), (''health'', JNum 7)]
     (JDict [(''name'', JStr ''Ann''), (''stats'', JDict [(''dex'', JNum 1)]), (''inventory'', JList [JStr ''torch'', JStr ''map'']), (''health'', JNum 10)])
   = Inr (JDict [(''name'', JStr ''Ann''), (''stats'', JDict [(''dex'', JNum 1), (''str'', JNum 3)]), (''inventory'', JList [JStr ''rope'']), (''health'', JNum 7)])"
  using deep_merge_by_key [of "[(''stats'', JDict [(''str'', JNum 3)]), (''inventory'', JList [JStr ''rope'']), (''health'', JNum 7)]"
     "[(''name'', JStr ''Ann''), (''stats'', JDict [(''dex'', JNum 1)]), (''inventory'', JList [JStr ''torch'', JStr ''map'']), (''health'', JNum 10)]"]
  by (simp add: deep_merge.simps(2) setdefault_def)

text \<open>
  Claim C8. When \<open>deep_merge\<close> returns, it returns the destination dictionary as the
  merge left it: every top-level key that does not occur in the source maps to its
  original value, and the keys the destination had keep their places (new keys are
  added behind them).
\<close>

theorem deep_merge_frame:
  assumes "deep_merge source (JDict d) = Inr r"
  shows "\<exists>d'. r = JDict d' \<and>
           (\<forall>key. key \<notin> fst ` set source \<longrightarrow> getitem d' key = getitem d key) \<and>
           take (length d) (map fst d') = map fst d"
proof -
  from assms obtain d' where r: "r = JDict d'"
    using deep_merge_returns_dict by blast
  have pre: "take (length d) (map fst d') = map fst d"
    using assms [unfolded r]
  proof (induction source arbitrary: d)
    case Nil
    then show ?case by simp
  next
    case (Cons p source)
    obtain k val where p: "p = (k, val)" by (cases p)
    from deep_merge_step [OF Cons.prems [unfolded p]] obtain v where
      rest: "deep_merge source (JDict (setitem d k v)) = Inr (JDict d')"
      by blast
    have a: "take (length d) (map fst (setitem d k v)) = map fst d"
      by (cases "k \<in> fst ` set d") (simp_all add: keys_setitem_in keys_setitem_notin)
    have b: "length d \<le> length (setitem d k v)"
      by (induction d) auto
    have "take (length d) (map fst d') =
          take (length d) (take (length (setitem d k v)) (map fst d'))"
      using b by (simp add: min_def)
    also have "\<dots> = take (length d) (map fst (setitem d k v))"
      by (simp only: Cons.IH [OF rest])
    finally show ?case
      using a by simp
  qed
  from r pre deep_merge_untouched [OF assms [unfolded r]] show ?thesis by simp
qed

theorem deep_merge_frame_witness:
  "deep_merge [(''health'', JNum 0), (''stats'', JDict [(''str'', JNum 3)])]
      (JDict [(''name'', JStr ''Ann''), (''health'', JNum 10)])
     = Inr (JDict [(''name'', JStr ''Ann''), (''health'', JNum 0), (''stats'', JDict [(''str'', JNum 3)])]) \<and>
   getitem [(''name'', JStr ''Ann''), (''health'', JNum 0), (''stats'', JDict [(''str'', JNum 3)])] ''name''
     = getitem [(''name'', JStr ''Ann''), (''health'', JNum 10)] ''name''"
proof -
  have run: "deep_merge [(''health'', JNum 0), (''stats'', JDict [(''str'', JNum 3)])]
      (JDict [(''name'', JStr ''Ann''), (''health'', JNum 10)])
     = Inr (JDict [(''name'', JStr ''Ann''), (''health'', JNum 0), (''stats'', JDict [(''str'', JNum 3)])])"
    by (simp add: deep_merge.simps(2) setdefault_def)
  from deep_merge_frame [OF run] show ?thesis
    using run by simp
qed

section \<open>The recent window of the conversation history\<close>

lemma str_nat_10: "str_nat 10 = ''10''"
  by (simp add: str_nat.simps digit_def)

lemma chat_summary_parts_long:
  assumes "10 < length convs"
  shows "chat_summary_parts rc convs =
           (if rc \<noteq> [] then [txt_vector_header @ context_info_of rc @ ''\<newline>''] else []) @
           [txt_recent_open @ ''10'' @ txt_turns_close @
            join ''\<newline>'' (map content (drop (length convs - 10) convs))]"
proof -
  from assms have len: "length (drop (length convs - 10) convs) = 10"
    by simp
  then have ne: "drop (length convs - 10) convs \<noteq> []"
    by (metis length_0_conv zero_neq_numeral)
  from assms have ne': "\<not> length convs \<le> 10" by simp
  show ?thesis
    unfolding chat_summary_parts_def Let_def RECENT_LIMIT_def
    by (simp only: assms ne len str_nat_10 if_True if_False not_False_eq_True)
qed

lemma chat_summary_parts_short:
  assumes "\<not> 10 < length convs"
  shows "chat_summary_parts rc convs =
           (if convs \<noteq> []
            then [txt_all_open @ str_nat (length convs) @ txt_turns_close @
                  join ''\<newline>'' (map content convs)]
            else [])"
  using assms unfolding chat_summary_parts_def Let_def RECENT_LIMIT_def
  by (simp only: if_False)

lemma sorted_fst_of_pairs:
  fixes f :: "'a \<Rightarrow> 'b::linorder" and g :: "'a \<Rightarrow> 'c::linorder"
  assumes "sorted (map (\<lambda>x. (f x, g x)) xs)"
  shows "sorted (map f xs)"
  using assms by (induction xs) (auto simp: less_eq_prod_def)

lemma sorted_retrieve_conversations:
  "sorted (map (\<lambda>x. (timestamp x, sequence x)) (retrieve_conversations got))"
  by (simp add: retrieve_conversations_def split: sum.splits option.splits)

lemma sorted_conversation_history:
  "sorted (map h_timestamp (conversation_history results))"
  by (simp add: conversation_history_def split: option.splits)

lemma sorted_get_chat_history:
  "sorted (map sequence_number (get_chat_history collection game_id limit))"
  by (simp add: get_chat_history_def)

section \<open>What each step issues and returns\<close>

lemma effects_emit [simp]: "effects (emit e w) = effects w @ [e]"
  by (simp add: emit_def)

lemma characters_emit [simp]: "characters (emit e w) = characters w"
  by (simp add: emit_def)

lemma update_character_info_effects:
  assumes "update_character_info env w game_id ui = (r, w')"
  shows "\<exists>es. effects w' = effects w @ es \<and>
           (\<forall>e \<in> set es. e = Log Warning \<or> e = Log Error \<or> (\<exists>p. e = ApiPatch game_id p)) \<and>
           length (filter (\<lambda>e. \<exists>p. e = ApiPatch game_id p) es) \<le> 1"
  using assms unfolding update_character_info_def Let_def
  by (auto split: option.splits sum.splits json.splits list.splits if_splits exc.splits)

lemma handle_character_death_effects:
  assumes "handle_character_death env w game_id c u m = (r, w')"
  shows "\<exists>es. effects w' = effects w @ es \<and>
           (es = [Log Error] \<or> (\<exists>p. es = [LlmInvoke p] \<or> es = [LlmInvoke p, Log Error]))"
  using assms unfolding handle_character_death_def Let_def
  by (auto split: sum.splits)

lemma is_dead_True_dict:
  assumes "is_dead uc = Inr True"
  obtains c where "uc = JDict c"
  using assms by (cases uc) (auto simp: is_dead_def split: if_splits)

lemma character_step_cases [consumes 1, case_names skip update_raised update_none
    check_raised alive no_message death]:
  assumes "character_step env w game_id u rd = (r, w')"
  obtains
    (skip) "r = Inr None" "w' = w \<or> w' = emit (Log Warning) w"
      "\<forall>ui. getitem rd ''update_character'' = Some (JDict ui) \<longrightarrow> ui = []"
  | (update_raised) ui e where
      "getitem rd ''update_character'' = Some (JDict ui)" "ui \<noteq> []"
      "update_character_info env w game_id ui = (Inl e, w')" "r = Inl e"
  | (update_none) ui where
      "getitem rd ''update_character'' = Some (JDict ui)" "ui \<noteq> []"
      "update_character_info env w game_id ui = (Inr None, w')" "r = Inr None"
  | (check_raised) ui uc e where
      "getitem rd ''update_character'' = Some (JDict ui)" "ui \<noteq> []"
      "update_character_info env w game_id ui = (Inr (Some uc), w')"
      "is_dead uc = Inl e" "r = Inl e"
  | (alive) ui uc where
      "getitem rd ''update_character'' = Some (JDict ui)" "ui \<noteq> []"
      "update_character_info env w game_id ui = (Inr (Some uc), w')"
      "is_dead uc = Inr False" "r = Inr None"
  | (no_message) ui uc where
      "getitem rd ''update_character'' = Some (JDict ui)" "ui \<noteq> []"
      "update_character_info env w game_id ui = (Inr (Some uc), w')"
      "is_dead uc = Inr True" "getitem rd ''message'' = None" "r = Inl KeyError"
  | (death) ui c m w1 dr where
      "getitem rd ''update_character'' = Some (JDict ui)" "ui \<noteq> []"
      "update_character_info env w game_id ui = (Inr (Some (JDict c)), w1)"
      "is_dead (JDict c) = Inr True" "getitem rd ''message'' = Some m"
      "handle_character_death env w1 game_id c u m = (dr, w')" "r = Inr (Some dr)"
proof (cases "\<exists>ui. getitem rd ''update_character'' = Some (JDict ui) \<and> ui \<noteq> []")
  case False
  with assms have "r = Inr None \<and> (w' = w \<or> w' = emit (Log Warning) w)"
    unfolding character_step_def
    by (auto split: option.splits json.splits if_splits)
  with False show ?thesis by (intro skip) auto
next
  case True
  then obtain ui where ui: "getitem rd ''update_character'' = Some (JDict ui)" "ui \<noteq> []"
    by blast
  obtain r1 w1 where up: "update_character_info env w game_id ui = (r1, w1)"
    by (cases "update_character_info env w game_id ui")
  show ?thesis
  proof (cases r1)
    case (Inl e)
    with assms ui up have "r = Inl e" "w' = w1"
      unfolding character_step_def by simp_all
    with ui up Inl show ?thesis by (intro update_raised [of ui e]) simp_all
  next
    case (Inr res)
    show ?thesis
    proof (cases res)
      case None
      with assms ui up Inr have "r = Inr None" "w' = w1"
        unfolding character_step_def by simp_all
      with ui up Inr None show ?thesis by (intro update_none [of ui]) simp_all
    next
      case (Some uc)
      note up' = up [unfolded Inr Some]
      show ?thesis
      proof (cases "is_dead uc")
        case (Inl e)
        with assms ui up' have "r = Inl e" "w' = w1"
          unfolding character_step_def by simp_all
        with ui up' Inl show ?thesis by (intro check_raised [of ui uc e]) simp_all
      next
        case dead: (Inr b)
        show ?thesis
        proof (cases b)
          case False
          with assms ui up' dead have "r = Inr None" "w' = w1"
            unfolding character_step_def by simp_all
          with ui up' dead False show ?thesis by (intro alive [of ui uc]) simp_all
        next
          case True
          with dead obtain c where c: "uc = JDict c"
            by (auto elim: is_dead_True_dict)
          show ?thesis
          proof (cases "getitem rd ''message''")
            case None
            with assms ui up' dead True have "r = Inl KeyError" "w' = w1"
              unfolding character_step_def by simp_all
            with ui up' dead True None show ?thesis by (intro no_message [of ui uc]) simp_all
          next
            case (Some m)
            obtain dr w2 where dh: "handle_character_death env w1 game_id c u m = (dr, w2)"
              by (cases "handle_character_death env w1 game_id c u m")
            with assms ui up' dead True Some c have "r = Inr (Some dr)" "w' = w2"
              unfolding character_step_def by simp_all
            with ui up' dead True Some c dh show ?thesis by (intro death [of ui c w1 m dr]) simp_all
          qed
        qed
      qed
    qed
  qed
qed

lemma character_step_effects:
  assumes "character_step env w game_id u rd = (r, w')"
  shows "\<exists>es. effects w' = effects w @ es \<and>
           (\<forall>e \<in> set es. e = Log Warning \<or> e = Log Error \<or> (\<exists>p. e = ApiPatch game_id p) \<or>
              (\<exists>p. e = LlmInvoke p))"
proof -
  have up: "\<exists>es. effects w1 = effects w @ es \<and>
           (\<forall>e \<in> set es. e = Log Warning \<or> e = Log Error \<or> (\<exists>p. e = ApiPatch game_id p) \<or>
              (\<exists>p. e = LlmInvoke p))"
    if "update_character_info env w game_id ui = (r1, w1)" for ui r1 w1
    using update_character_info_effects [OF that] by blast
  from assms show ?thesis
  proof (cases rule: character_step_cases)
    case skip
    then show ?thesis by auto
  next
    case (update_raised ui e)
    then show ?thesis using up by blast
  next
    case (update_none ui)
    then show ?thesis using up by blast
  next
    case (check_raised ui uc e)
    then show ?thesis using up by blast
  next
    case (alive ui uc)
    then show ?thesis using up by blast
  next
    case (no_message ui uc)
    then show ?thesis using up by blast
  next
    case (death ui c m w1 dr)
    from up [OF death(3)] obtain es1 where es1:
      "effects w1 = effects w @ es1"
      "\<forall>e \<in> set es1. e = Log Warning \<or> e = Log Error \<or> (\<exists>p. e = ApiPatch game_id p) \<or>
              (\<exists>p. e = LlmInvoke p)"
      by blast
    from handle_character_death_effects [OF death(6)] obtain es2 where es2:
      "effects w' = effects w1 @ es2"
      "es2 = [Log Error] \<or> (\<exists>p. es2 = [LlmInvoke p] \<or> es2 = [LlmInvoke p, Log Error])"
      by blast
    from es2(2) have "\<forall>e \<in> set es2. e = Log Warning \<or> e = Log Error \<or>
        (\<exists>p. e = ApiPatch game_id p) \<or> (\<exists>p. e = LlmInvoke p)"
      by auto
    with es1 es2(1) show ?thesis
      by (intro exI [of _ "es1 @ es2"]) auto
  qed
qed

lemma effects_add_user [simp]:
  "effects (add_user_input_to_vector_storage env w g u) =
     effects w @ VectorAdd g (user_input_text u) ''user'' #
       (case add_scenario_data env (user_input_text u) of None \<Rightarrow> [] | Some e \<Rightarrow> [Log Warning])"
  by (simp add: add_user_input_to_vector_storage_def Let_def split: option.splits)

lemma characters_add_user [simp]:
  "characters (add_user_input_to_vector_storage env w g u) = characters w"
  by (simp add: add_user_input_to_vector_storage_def Let_def split: option.splits)

lemma effects_add_ai [simp]:
  "effects (add_ai_response_to_vector_storage env w g m i) =
     effects w @ VectorAdd g (ai_response_text env m i) ''assistant'' #
       (case add_scenario_data env (ai_response_text env m i) of
          None \<Rightarrow> [] | Some e \<Rightarrow> [Log Warning])"
  by (simp add: add_ai_response_to_vector_storage_def Let_def split: option.splits)

lemma characters_add_ai [simp]:
  "characters (add_ai_response_to_vector_storage env w g m i) = characters w"
  by (simp add: add_ai_response_to_vector_storage_def Let_def split: option.splits)

lemma finish_request_cases [consumes 1, case_names no_message memory_raised stored]:
  assumes "finish_request env w g u rc rd = (r, w')"
  obtains
    (no_message) "getitem rd ''message'' = None" "r = Inl KeyError" "w' = w"
  | (memory_raised) m e where
      "getitem rd ''message'' = Some m" "memory_add_message env = Some e" "r = Inl e"
      "effects w' = effects w @ [MemoryAddMessage g u m]" "characters w' = characters w"
  | (stored) m res where
      "getitem rd ''message'' = Some m" "memory_add_message env = None" "r = Inr res"
      "json_get res ''success'' = Some (JBool True)" "json_get res ''message'' = Some m"
      "json_get res ''game_over'' = None"
      "effects w' = effects w @ persist_trace env g u m (get_default rd ''image_url'' JNull)"
      "characters w' = characters w"
proof (cases "getitem rd ''message''")
  case None
  with assms show ?thesis
    by (intro no_message) (simp_all add: finish_request_def)
next
  case (Some m)
  show ?thesis
  proof (cases "memory_add_message env")
    case e: (Some e)
    with assms Some show ?thesis
      by (intro memory_raised [of m e]) (auto simp: finish_request_def Let_def)
  next
    case None
    with assms Some show ?thesis
      by (intro stored [of m "projr r"])
         (auto simp: finish_request_def Let_def json_get_def persist_trace_def)
  qed
qed


lemma issued_append: "effects w' = effects w @ es \<Longrightarrow> issued w w' = es"
  by (simp add: issued_def)


lemma ask_game_master_cases [consumes 1, case_names prepare_raised search_raised
    model_raised answered]:
  assumes "ask_game_master env w g u = (r, w4)"
  obtains
    (prepare_raised) e where
      "prepare_game_context env = Inl e" "r = Inl e" "w4 = w"
  | (search_raised) ctx fetched e where
      "prepare_game_context env = Inr (ctx, fetched)" "search_relevant_context env = Inl e"
      "r = Inl e" "effects w4 = effects w"
  | (model_raised) ctx fetched rc e where
      "prepare_game_context env = Inr (ctx, fetched)" "search_relevant_context env = Inr rc"
      "gm_chain_run env ctx (chat_summary rc (retrieve_conversations (store_get env)))
         (context_info_of rc) u = Inl e"
      "r = Inl e"
      "effects w4 = effects w @
         (case store_get env of Inl e \<Rightarrow> [Log Warning] | Inr x \<Rightarrow> []) @
         [GmChainRun ctx (chat_summary rc (retrieve_conversations (store_get env)))
            (context_info_of rc) u]"
  | (answered) ctx fetched rc resp rd logs where
      "prepare_game_context env = Inr (ctx, fetched)" "search_relevant_context env = Inr rc"
      "gm_chain_run env ctx (chat_summary rc (retrieve_conversations (store_get env)))
         (context_info_of rc) u = Inr resp"
      "parse_response env resp = (rd, logs)"
      "r = Inr (rc, rd)"
      "effects w4 = effects w @
         (case store_get env of Inl e \<Rightarrow> [Log Warning] | Inr x \<Rightarrow> []) @
         [GmChainRun ctx (chat_summary rc (retrieve_conversations (store_get env)))
            (context_info_of rc) u] @ logs"
proof (cases "prepare_game_context env")
  case (Inl e)
  with assms show ?thesis
    by (intro prepare_raised [of e]) (simp_all add: ask_game_master_def)
next
  case (Inr p)
  obtain ctx fetched where p: "p = (ctx, fetched)" by (cases p)
  note prep = Inr [unfolded p]
  show ?thesis
  proof (cases "search_relevant_context env")
    case (Inl e)
    with assms prep show ?thesis
      by (intro search_raised [of ctx fetched e])
         (auto simp: ask_game_master_def Let_def split: option.splits)
  next
    case (Inr rc)
    note search = Inr
    let ?S = "chat_summary rc (retrieve_conversations (store_get env))"
    show ?thesis
    proof (cases "gm_chain_run env ctx ?S (context_info_of rc) u")
      case (Inl e)
      with assms prep search show ?thesis
        by (intro model_raised [of ctx fetched rc e])
           (auto simp: ask_game_master_def Let_def split: option.splits sum.splits)
    next
      case (Inr resp)
      obtain rd logs where pr: "parse_response env resp = (rd, logs)"
        by (cases "parse_response env resp")
      with assms prep search Inr show ?thesis
        by (intro answered [of ctx fetched rc resp rd logs])
           (auto simp: ask_game_master_def Let_def split: option.splits sum.splits)
    qed
  qed
qed

lemma finish_request_effects:
  assumes "finish_request env w g u rc rd = (r, w')"
  shows "\<exists>es. effects w' = effects w @ es"
  using assms by (cases rule: finish_request_cases) auto

lemma process_body_extends:
  assumes "ask_game_master env w g u = (a, w4)" and "process_body env w g u = (r, wb)"
  shows "\<exists>es. effects wb = effects w4 @ es"
proof (cases a)
  case (Inl e)
  with assms show ?thesis by (simp add: process_body_def)
next
  case (Inr p)
  obtain rc rdj where p: "p = (rc, rdj)" by (cases p)
  show ?thesis
  proof (cases "\<exists>rd. rdj = JDict rd")
    case False
    with assms Inr p show ?thesis
      by (cases rdj) (simp_all add: process_body_def)
  next
    case True
    then obtain rd where rd: "rdj = JDict rd" by blast
    obtain c w5 where cs: "character_step env w4 g u rd = (c, w5)"
      by (cases "character_step env w4 g u rd")
    from character_step_effects [OF cs] obtain es1 where es1: "effects w5 = effects w4 @ es1"
      by blast
    show ?thesis
    proof (cases c)
      case (Inl e)
      with assms Inr p rd cs es1 show ?thesis
        by (simp add: process_body_def)
    next
      case c: (Inr res)
      show ?thesis
      proof (cases res)
        case (Some dr)
        with assms Inr p rd cs es1 c show ?thesis
          by (simp add: process_body_def)
      next
        case None
        with assms Inr p rd cs c have "finish_request env w5 g u rc rd = (r, wb)"
          by (simp add: process_body_def)
        from finish_request_effects [OF this] es1 show ?thesis by auto
      qed
    qed
  qed
qed

lemma process_game_request_extends_body:
  assumes "process_body env w g u = (r, wb)"
  shows "\<exists>es. effects (snd (process_game_request env w g u)) = effects wb @ es"
  using assms by (cases r) (simp_all add: process_game_request_def)

lemma chat_summary_formula:
  "chat_summary rc convs =
       (if 10 < length convs then
          join ''\<newline>''
            ((if rc \<noteq> [] then [txt_vector_header @ context_info_of rc @ ''\<newline>''] else []) @
             [txt_recent_open @ ''10'' @ txt_turns_close @
              join ''\<newline>'' (map content (drop (length convs - 10) convs))])
        else if convs \<noteq> [] then
          txt_all_open @ str_nat (length convs) @ txt_turns_close @
          join ''\<newline>'' (map content convs)
        else txt_new_session)"
proof (cases "10 < length convs")
  case True
  then show ?thesis
    by (simp add: chat_summary_def chat_summary_parts_long)
next
  case False
  then show ?thesis
    by (simp add: chat_summary_def chat_summary_parts_short)
qed

lemma retrieve_conversations_store:
  "retrieve_conversations (store_get env) =
     (if store_get_error env \<noteq> None then []
      else sort_key (\<lambda>x. (timestamp x, sequence x))
             (map conversation_of
                (case stored_conversations env of Some rs \<Rightarrow> rs | None \<Rightarrow> [])))"
  by (simp add: retrieve_conversations_def store_get_def split: option.splits)

lemma request_runs_chain:
  assumes "prepare_game_context env = Inr (ctx, fetched)"
    and "search_relevant_context env = Inr rc"
  shows "GmChainRun ctx (chat_summary rc (retrieve_conversations (store_get env)))
           (context_info_of rc) u
         \<in> set (issued w (snd (process_game_request env w g u)))"
proof -
  define convs where "convs = retrieve_conversations (store_get env)"
  obtain a w4 where ask: "ask_game_master env w g u = (a, w4)"
    by (cases "ask_game_master env w g u")
  obtain r wb where body: "process_body env w g u = (r, wb)"
    by (cases "process_body env w g u")
  from ask assms have "\<exists>pre post. effects w4 = effects w @ pre @
      [GmChainRun ctx (chat_summary rc convs) (context_info_of rc) u] @ post"
    unfolding convs_def
    by (cases rule: ask_game_master_cases) auto
  then obtain pre post where
    "effects w4 = effects w @ pre @ [GmChainRun ctx (chat_summary rc convs) (context_info_of rc) u] @ post"
    by blast
  moreover from process_body_extends [OF ask body] obtain es1 where
    "effects wb = effects w4 @ es1" by blast
  moreover from process_game_request_extends_body [OF body] obtain es2 where
    "effects (snd (process_game_request env w g u)) = effects wb @ es2" by blast
  ultimately have "effects (snd (process_game_request env w g u)) =
      effects w @ (pre @ [GmChainRun ctx (chat_summary rc convs) (context_info_of rc) u] @ post
        @ es1 @ es2)"
    by simp
  from issued_append [OF this] show ?thesis
    unfolding convs_def by simp
qed


lemma is_dead_dict:
  "is_dead (JDict c) = Inr True \<longleftrightarrow>
     (\<exists>n. getitem c ''health'' = Some (JNum n) \<and> n \<le> 0) \<or> getitem c ''health'' = Some (JBool False)"
proof (cases "getitem c ''health''")
  case None
  then show ?thesis
    by (simp add: is_dead_def get_default_def health_le_zero_def)
next
  case (Some h)
  then have "c \<noteq> []" by auto
  with Some show ?thesis
    by (cases h) (simp_all add: is_dead_def get_default_def health_le_zero_def)
qed

lemma is_dead_no_health: "getitem c ''health'' = None \<Longrightarrow> is_dead (JDict c) = Inr False"
  by (simp add: is_dead_def get_default_def health_le_zero_def)

lemma character_step_dead:
  assumes "getitem rd ''update_character'' = Some (JDict ui)" and "ui \<noteq> []"
    and "update_character_info env w g ui = (Inr (Some (JDict c)), w1)"
    and "is_dead (JDict c) = Inr True"
    and "getitem rd ''message'' = Some m"
  shows "character_step env w g u rd =
           (Inr (Some (fst (handle_character_death env w1 g c u m))),
            snd (handle_character_death env w1 g c u m))"
  using assms by (simp add: character_step_def split: prod.splits)

lemma character_step_alive:
  assumes "getitem rd ''update_character'' = Some (JDict ui)" and "ui \<noteq> []"
    and "update_character_info env w g ui = (Inr (Some uc), w1)"
    and "is_dead uc = Inr False"
  shows "character_step env w g u rd = (Inr None, w1)"
  using assms by (simp add: character_step_def)














lemma sorted_eleven:
  "map content (retrieve_conversations (Inr (Some eleven_turns))) =
     [''turn 01'', ''turn 02'', ''turn 03'', ''turn 04'', ''turn 05'', ''turn 06'', ''turn 07'',
      ''turn 08'', ''turn 09'', ''turn 10'', ''turn 11'']"
  by code_simp

subsection \<open>Evaluating the example environments\<close>

lemma not_blank_json: "\<not> blank ''{json}''"
  unfolding blank_def by (subst blank_bytes.simps) simp

lemma env_example_fields [simp]:
  "prepare_game_context (env_example h) = Inr (''The cave'', Some (JList [ann 3]))"
  "search_relevant_context (env_example h) = Inr []"
  "stored_conversations (env_example h) = None"
  "store_get_error (env_example h) = None"
  "gm_chain_run (env_example h) = (\<lambda>a b c d. Inr ''{json}'')"
  "json_loads (env_example h) = (\<lambda>t. Inr (answer h))"
  "requests_patch (env_example h) = (\<lambda>p. Inr (ann h))"
  "memory_add_message (env_example h) = None"
  "add_scenario_data (env_example h) = (\<lambda>t. None)"
  "death_store_get (env_example h) = Inr None"
  "llm_invoke (env_example h) = (\<lambda>p. Inr ''Ann fell in the cave.'')"
  "now_isoformat (env_example h) = ''2025-01-01T00:00:00''"
  "random_choice (env_example h) = 0"
  "str_of_exc (env_example h) = (\<lambda>e. ''error'')"
  "format_value (env_example h) = (\<lambda>v. ''10'')"
  by (simp_all add: env_example_def)

lemmas run_defs =
  process_game_request_def process_body_def ask_game_master_def character_step_def
  finish_request_def update_character_info_def handle_character_death_def parse_response_def
  add_user_input_to_vector_storage_def add_ai_response_to_vector_storage_def
  retrieve_conversations_def chat_summary_def chat_summary_parts_def context_info_of_def
  first_character_def is_dead_def health_le_zero_def get_default_def setdefault_def
  allowed_fields_def emit_def death_fallback_def handle_error_def json_get_def
  deep_merge.simps(2) not_blank_json store_get_def world_example_def ann_def answer_def Let_def py_str_def

section \<open>The summary passed to the model\<close>

text \<open>
  Claim C1, amended. The threshold is the constant 10, whatever the input. When the
  conversation entries are retrieved from the store and there are more than 10 of them,
  the summary is the section of the vector search (its header and the contents of the
  documents found, only when the search found any) followed by the section of the
  recent conversations, which holds the contents of exactly the last 10 entries of the
  list sorted by time stamp and sequence number, in order; no older entry occurs in it.
  With at most 10 entries the summary holds all of them, and without any it is the text
  of a new session. When the retrieval raises, the summary is the text of a new session
  whatever the store holds. When the context and the vector search are available, this
  summary and the contents found are what the request passes to the model.
\<close>

theorem chat_summary_recent_window:
  assumes "prepare_game_context env = Inr (ctx, fetched)"
    and "search_relevant_context env = Inr rc"
  shows "let stored = (case stored_conversations env of Some rs \<Rightarrow> rs | None \<Rightarrow> []);
             sorted_all = sort_key (\<lambda>x. (timestamp x, sequence x)) (map conversation_of stored);
             recent = drop (length stored - 10) sorted_all;
             found = (if rc \<noteq> [] then join ''\<newline>'' (map page_content rc) else []);
             summary =
               (if store_get_error env \<noteq> None then txt_new_session
                else if 10 < length stored then
                  join ''\<newline>''
                    ((if rc \<noteq> [] then [txt_vector_header @ found @ ''\<newline>''] else []) @
                     [txt_recent_open @ ''10'' @ txt_turns_close @
                      join ''\<newline>'' (map content recent)])
                else if stored \<noteq> [] then
                  txt_all_open @ str_nat (length stored) @ txt_turns_close @
                  join ''\<newline>'' (map content sorted_all)
                else txt_new_session)
         in (10 < length stored \<longrightarrow> length recent = 10) \<and>
            chat_summary rc (retrieve_conversations (store_get env)) = summary \<and>
            GmChainRun ctx summary found u
              \<in> set (issued w (snd (process_game_request env w g u)))"
proof -
  define stored where "stored = (case stored_conversations env of Some rs \<Rightarrow> rs | None \<Rightarrow> [])"
  define sorted_all where
    "sorted_all = sort_key (\<lambda>x. (timestamp x, sequence x)) (map conversation_of stored)"
  define found where "found = (if rc \<noteq> [] then join ''\<newline>'' (map page_content rc) else [])"
  define summary where "summary =
               (if store_get_error env \<noteq> None then txt_new_session
                else if 10 < length stored then
                  join ''\<newline>''
                    ((if rc \<noteq> [] then [txt_vector_header @ found @ ''\<newline>''] else []) @
                     [txt_recent_open @ ''10'' @ txt_turns_close @
                      join ''\<newline>'' (map content (drop (length stored - 10) sorted_all))])
                else if stored \<noteq> [] then
                  txt_all_open @ str_nat (length stored) @ txt_turns_close @
                  join ''\<newline>'' (map content sorted_all)
                else txt_new_session)"
  have found: "context_info_of rc = found"
    by (simp add: context_info_of_def found_def)
  have len: "length sorted_all = length stored"
    by (simp add: sorted_all_def)
  have ne: "sorted_all \<noteq> [] \<longleftrightarrow> stored \<noteq> []"
    using len by (metis length_0_conv)
  have convs: "retrieve_conversations (store_get env) =
      (if store_get_error env \<noteq> None then [] else sorted_all)"
    unfolding retrieve_conversations_store sorted_all_def stored_def by simp
  have sum: "chat_summary rc (retrieve_conversations (store_get env)) = summary"
  proof (cases "store_get_error env \<noteq> None")
    case True
    then show ?thesis
      by (simp add: convs summary_def chat_summary_formula)
  next
    case False
    then show ?thesis
      by (simp add: convs summary_def chat_summary_formula [of rc sorted_all] len ne found)
  qed
  have a: "10 < length stored \<longrightarrow> length (drop (length stored - 10) sorted_all) = 10"
    using len by simp
  from request_runs_chain [OF assms, of u w g]
  have b: "GmChainRun ctx summary found u
              \<in> set (issued w (snd (process_game_request env w g u)))"
    by (simp only: sum found)
  from a sum b show ?thesis
    unfolding Let_def stored_def [symmetric] sorted_all_def [symmetric] found_def [symmetric]
      summary_def [symmetric]
    by simp
qed

text \<open>
  An instance with eleven stored turns and one document found by the search: the
  oldest turn is left out of the summary.
\<close>

theorem chat_summary_recent_window_witness:
  "prepare_game_context ((env_example 2)
       \<lparr>search_relevant_context := Inr [\<lparr>page_content = ''the old bridge''\<rparr>],
        stored_conversations := Some eleven_turns\<rparr>) =
     Inr (''The cave'', Some (JList [ann 3])) \<and>
   search_relevant_context ((env_example 2)
       \<lparr>search_relevant_context := Inr [\<lparr>page_content = ''the old bridge''\<rparr>],
        stored_conversations := Some eleven_turns\<rparr>) = Inr [\<lparr>page_content = ''the old bridge''\<rparr>] \<and>
   length eleven_turns = 11 \<and>
   GmChainRun ''The cave''
     (txt_vector_header @ ''the old bridge'' @ ''\<newline>'' @ ''\<newline>'' @
      txt_recent_open @ ''10'' @ txt_turns_close @
      join ''\<newline>'' [''turn 02'', ''turn 03'', ''turn 04'', ''turn 05'', ''turn 06'',
                      ''turn 07'', ''turn 08'', ''turn 09'', ''turn 10'', ''turn 11''])
     ''the old bridge'' ''attack''
   \<in> set (issued world_example (snd (process_game_request
        ((env_example 2)
           \<lparr>search_relevant_context := Inr [\<lparr>page_content = ''the old bridge''\<rparr>],
            stored_conversations := Some eleven_turns\<rparr>)
        world_example ''g1'' ''attack'')))"
proof -
  let ?E = "(env_example 2)
       \<lparr>search_relevant_context := Inr [\<lparr>page_content = ''the old bridge''\<rparr>],
        stored_conversations := Some eleven_turns\<rparr>"
  have h1: "prepare_game_context ?E = Inr (''The cave'', Some (JList [ann 3]))"
    by simp
  have h2: "search_relevant_context ?E = Inr [\<lparr>page_content = ''the old bridge''\<rparr>]"
    by simp
  have st: "stored_conversations ?E = Some eleven_turns" "store_get_error ?E = None"
    by simp_all
  have len: "length eleven_turns = 11"
    by (simp add: eleven_turns_def)
  have conv: "map content (sort_key (\<lambda>x. (timestamp x, sequence x))
                 (map conversation_of eleven_turns)) =
     [''turn 01'', ''turn 02'', ''turn 03'', ''turn 04'', ''turn 05'', ''turn 06'', ''turn 07'',
      ''turn 08'', ''turn 09'', ''turn 10'', ''turn 11'']"
    using sorted_eleven by (simp add: retrieve_conversations_def)
  note t = chat_summary_recent_window [OF h1 h2, where w = world_example and g = "''g1''"
      and u = "''attack''", unfolded Let_def]
  from t [THEN conjunct2, THEN conjunct2]
  have "GmChainRun ''The cave''
     (txt_vector_header @ ''the old bridge'' @ ''\<newline>'' @ ''\<newline>'' @
      txt_recent_open @ ''10'' @ txt_turns_close @
      join ''\<newline>'' [''turn 02'', ''turn 03'', ''turn 04'', ''turn 05'', ''turn 06'',
                      ''turn 07'', ''turn 08'', ''turn 09'', ''turn 10'', ''turn 11''])
     ''the old bridge'' ''attack''
   \<in> set (issued world_example (snd (process_game_request ?E world_example ''g1'' ''attack'')))"
    by (simp add: st len drop_map [symmetric] conv)
  with h1 h2 len show ?thesis
    by blast
qed

text \<open>
  The claim as first stated speaks of the stored entries. Here the store holds eleven
  turns and its retrieval raises: the failure is logged as a warning, the model receives
  the text of a new session, and the request succeeds.
\<close>

theorem store_failure_counterexample:
  "stored_conversations ((env_example 2)
       \<lparr>stored_conversations := Some eleven_turns,
        store_get_error := Some (ExternalError ''store down'')\<rparr>) = Some eleven_turns \<and>
   10 < length eleven_turns \<and>
   take 2 (effects (snd (process_game_request
     ((env_example 2)
        \<lparr>stored_conversations := Some eleven_turns,
         store_get_error := Some (ExternalError ''store down'')\<rparr>)
     world_example ''g1'' ''attack''))) =
     [Log Warning, GmChainRun ''The cave'' txt_new_session [] ''attack''] \<and>
   json_get (fst (process_game_request
     ((env_example 2)
        \<lparr>stored_conversations := Some eleven_turns,
         store_get_error := Some (ExternalError ''store down'')\<rparr>)
     world_example ''g1'' ''attack'')) ''success'' = Some (JBool True)"
  by (simp add: run_defs eleven_turns_def)

section \<open>The death of the character\<close>




section \<open>Storing the exchange\<close>




section \<open>Exceptions\<close>




section \<open>When the death branch is taken\<close>

text \<open>
  Claim C10. For a character dictionary returned by a successful update, the test of the
  death branch holds if and only if the dictionary has a health that is at most 0 (an
  integer at most 0, or \<^verbatim>\<open>false\<close>, which Python counts as 0). A dictionary without
  \<^verbatim>\<open>health\<close> is alive, and step 6 goes on to the normal result. When the answer of the
  model has a message, step 6 returns the death response if and only if the health is at
  most 0.
\<close>

theorem death_iff_health:
  assumes "getitem rd ''update_character'' = Some (JDict ui)" and "ui \<noteq> []"
    and "update_character_info env w g ui = (Inr (Some (JDict c)), w1)"
  shows "(is_dead (JDict c) = Inr True \<longleftrightarrow>
            (\<exists>n. getitem c ''health'' = Some (JNum n) \<and> n \<le> 0) \<or>
            getitem c ''health'' = Some (JBool False)) \<and>
         (getitem c ''health'' = None \<longrightarrow>
            is_dead (JDict c) = Inr False \<and> character_step env w g u rd = (Inr None, w1)) \<and>
         (getitem rd ''message'' = Some m \<longrightarrow>
            ((\<exists>dr w2. character_step env w g u rd = (Inr (Some dr), w2)) \<longleftrightarrow>
             (\<exists>n. getitem c ''health'' = Some (JNum n) \<and> n \<le> 0) \<or>
             getitem c ''health'' = Some (JBool False)))"
proof (intro conjI impI)
  show "is_dead (JDict c) = Inr True \<longleftrightarrow>
            (\<exists>n. getitem c ''health'' = Some (JNum n) \<and> n \<le> 0) \<or>
            getitem c ''health'' = Some (JBool False)"
    by (rule is_dead_dict)
next
  assume "getitem c ''health'' = None"
  then show "is_dead (JDict c) = Inr False" by (rule is_dead_no_health)
next
  assume "getitem c ''health'' = None"
  then have "is_dead (JDict c) = Inr False" by (rule is_dead_no_health)
  from character_step_alive [OF assms this] show "character_step env w g u rd = (Inr None, w1)" .
next
  assume m: "getitem rd ''message'' = Some m"
  show "(\<exists>dr w2. character_step env w g u rd = (Inr (Some dr), w2)) \<longleftrightarrow>
             (\<exists>n. getitem c ''health'' = Some (JNum n) \<and> n \<le> 0) \<or>
             getitem c ''health'' = Some (JBool False)"
  proof
    assume "\<exists>dr w2. character_step env w g u rd = (Inr (Some dr), w2)"
    then obtain dr w2 where "character_step env w g u rd = (Inr (Some dr), w2)" by blast
    then have "is_dead (JDict c) = Inr True"
    proof (cases rule: character_step_cases)
      case (death ui' c' m' w1' dr')
      with assms show ?thesis by simp
    qed simp_all
    then show "(\<exists>n. getitem c ''health'' = Some (JNum n) \<and> n \<le> 0) \<or>
             getitem c ''health'' = Some (JBool False)"
      by (simp add: is_dead_dict)
  next
    assume "(\<exists>n. getitem c ''health'' = Some (JNum n) \<and> n \<le> 0) \<or>
             getitem c ''health'' = Some (JBool False)"
    then have "is_dead (JDict c) = Inr True" by (simp add: is_dead_dict)
    from character_step_dead [OF assms this m] show
      "\<exists>dr w2. character_step env w g u rd = (Inr (Some dr), w2)" by blast
  qed
qed

text \<open>
  An instance: the example update with health 0.
\<close>

theorem death_iff_health_witness:
  "update_character_info (env_example 0) \<lparr>characters = Some (JList [ann 3]), effects = []\<rparr>
     ''g1'' [(''health'', JNum 0)] =
     (Inr (Some (JDict [(''name'', JStr ''Ann''), (''health'', JNum 0), (''maxHealth'', JNum 10)])),
      \<lparr>characters = Some (JList [ann 0]),
       effects = [ApiPatch ''g1'' (JDict [(''health'', JNum 0)])]\<rparr>) \<and>
   is_dead (JDict [(''name'', JStr ''Ann''), (''health'', JNum 0), (''maxHealth'', JNum 10)])
     = Inr True \<and>
   (\<exists>dr w2. character_step (env_example 0) \<lparr>characters = Some (JList [ann 3]), effects = []\<rparr>
      ''g1'' ''attack''
      [(''message'', JStr ''The orc strikes.''),
       (''update_character'', JDict [(''health'', JNum 0)])] = (Inr (Some dr), w2))"
proof -
  let ?rd = "[(''message'', JStr ''The orc strikes.''),
              (''update_character'', JDict [(''health'', JNum 0)])]"
  let ?c = "[(''name'', JStr ''Ann''), (''health'', JNum 0), (''maxHealth'', JNum 10)]"
  let ?w = "\<lparr>characters = Some (JList [ann 3]), effects = []\<rparr>"
  let ?w1 = "\<lparr>characters = Some (JList [ann 0]),
       effects = [ApiPatch ''g1'' (JDict [(''health'', JNum 0)])]\<rparr>"
  have h1: "getitem ?rd ''update_character'' = Some (JDict [(''health'', JNum 0)])"
    by simp
  have h2: "[(''health'', JNum 0)] \<noteq> ([] :: dict)"
    by simp
  have h3: "update_character_info (env_example 0) ?w ''g1'' [(''health'', JNum 0)] =
      (Inr (Some (JDict ?c)), ?w1)"
    by (simp add: run_defs)
  have h4: "getitem ?rd ''message'' = Some (JStr ''The orc strikes.'')"
    by simp
  have h5: "(\<exists>n. getitem ?c ''health'' = Some (JNum n) \<and> n \<le> 0) \<or>
         getitem ?c ''health'' = Some (JBool False)"
    by simp
  note t = death_iff_health [OF h1 h2 h3, of "''attack''" "JStr ''The orc strikes.''"]
  from t h5 have a: "is_dead (JDict ?c) = Inr True" by blast
  from t h4 h5 have b: "\<exists>dr w2. character_step (env_example 0) ?w ''g1'' ''attack'' ?rd =
      (Inr (Some dr), w2)" by blast
  from h3 a b show ?thesis by blast
qed

section \<open>Sequence numbers of the chat history\<close>

lemma insort_key_greatest:
  "\<forall>y \<in> set ys. f y < f x \<Longrightarrow> insort_key f x ys = ys @ [x]"
  by (induction ys) auto

lemma sort_key_descending:
  "sorted_wrt (\<lambda>a b. f b < f a) xs \<Longrightarrow> sort_key f xs = rev xs"
  by (induction xs) (auto simp: insort_key_greatest)

lemma Max_strictly_sorted:
  fixes xs :: "int list"
  shows "sorted_wrt (<) xs \<Longrightarrow> xs \<noteq> [] \<Longrightarrow> Max (set xs) = last xs"
proof (induction xs)
  case Nil
  then show ?case by simp
next
  case (Cons x xs)
  show ?case
  proof (cases "xs = []")
    case True
    then show ?thesis by simp
  next
    case False
    with Cons have "Max (set xs) = last xs" by simp
    moreover from False have "last xs \<in> set xs" by simp
    with Cons.prems have "x < last xs" by auto
    ultimately show ?thesis
      using False by (simp add: max_def)
  qed
qed

lemma game_seqs_of_game:
  "game_seqs collection g = map sequence_number (of_game g collection)"
  by (simp add: game_seqs_def of_game_def)

lemma seq_ok_game:
  assumes "seq_ok collection"
  shows "sorted_wrt (<) (game_seqs collection g) \<and> (\<forall>n \<in> set (game_seqs collection g). 0 < n)"
proof (cases "g \<in> set (map doc_game_id collection)")
  case True
  with assms have
    "sorted_wrt (<) (map sequence_number (filter (\<lambda>d. doc_game_id d = g) collection))"
    "\<forall>d \<in> set collection. doc_game_id d = g \<longrightarrow> 0 < sequence_number d"
    unfolding seq_ok_def by blast+
  then show ?thesis
    by (auto simp: game_seqs_def)
next
  case False
  then have "filter (\<lambda>d. doc_game_id d = g) collection = []"
    by (auto simp: filter_empty_conv)
  then show ?thesis
    by (simp add: game_seqs_def)
qed

lemma of_game_descending:
  assumes "seq_ok collection"
  shows "sort_key (\<lambda>d. - sequence_number d) (of_game g collection) = rev (of_game g collection)"
proof -
  from seq_ok_game [OF assms, of g]
  have "sorted_wrt (<) (map sequence_number (of_game g collection))"
    by (simp add: game_seqs_of_game)
  then have "sorted_wrt (\<lambda>a b. - sequence_number b < - sequence_number a) (of_game g collection)"
    by (simp add: sorted_wrt_map)
  then show ?thesis
    by (rule sort_key_descending)
qed

lemma find_one_max_last:
  assumes "seq_ok collection"
  shows "find_one_max collection g =
           (if of_game g collection = [] then None else Some (last (of_game g collection)))"
  unfolding find_one_max_def of_game_descending [OF assms]
  by (cases "of_game g collection" rule: rev_cases) simp_all

lemma next_sequence_find:
  assumes "seq_ok collection"
  shows "(case find_one_max collection g of
            Some max_seq_doc \<Rightarrow> sequence_number max_seq_doc + 1 | None \<Rightarrow> 1) =
         next_sequence collection g"
proof (cases "of_game g collection = []")
  case True
  then show ?thesis
    by (simp add: find_one_max_last [OF assms] next_sequence_def game_seqs_of_game)
next
  case False
  from seq_ok_game [OF assms, of g] False
  have "Max (set (game_seqs collection g)) = last (game_seqs collection g)"
    by (intro Max_strictly_sorted) (simp_all add: game_seqs_of_game)
  with False show ?thesis
    by (simp add: find_one_max_last [OF assms] next_sequence_def game_seqs_of_game last_map)
qed

lemma next_sequence_greater:
  assumes "seq_ok collection" and "n \<in> set (game_seqs collection g)"
  shows "n < next_sequence collection g" and "0 < next_sequence collection g"
proof -
  from assms(2) have ne: "game_seqs collection g \<noteq> []" by auto
  have "n \<le> Max (set (game_seqs collection g))"
    using assms(2) by simp
  with ne show "n < next_sequence collection g"
    by (simp add: next_sequence_def)
  from seq_ok_game [OF assms(1), of g] assms(2) have "0 < n" by blast
  with \<open>n < next_sequence collection g\<close> show "0 < next_sequence collection g" by simp
qed

lemma next_sequence_positive:
  assumes "seq_ok collection"
  shows "0 < next_sequence collection g"
proof (cases "game_seqs collection g = []")
  case True
  then show ?thesis by (simp add: next_sequence_def)
next
  case False
  then obtain n where "n \<in> set (game_seqs collection g)"
    by (cases "game_seqs collection g") auto
  from next_sequence_greater(2) [OF assms this] show ?thesis .
qed

lemma seq_ok_intro:
  assumes "\<And>g. sorted_wrt (<) (game_seqs collection g) \<and>
                (\<forall>n \<in> set (game_seqs collection g). 0 < n)"
  shows "seq_ok collection"
  unfolding seq_ok_def
proof (intro ballI conjI impI)
  fix g
  from assms [of g] show
    "sorted_wrt (<) (map sequence_number (filter (\<lambda>d. doc_game_id d = g) collection))"
    by (simp add: game_seqs_def)
next
  fix g d
  assume "d \<in> set collection" "doc_game_id d = g"
  then have "sequence_number d \<in> set (game_seqs collection g)"
    by (auto simp: game_seqs_def)
  with assms [of g] show "0 < sequence_number d" by blast
qed

lemma seq_ok_append:
  assumes "seq_ok collection" and "doc_game_id d = g"
    and "sequence_number d = next_sequence collection g"
  shows "seq_ok (collection @ [d])"
proof (rule seq_ok_intro)
  fix g'
  show "sorted_wrt (<) (game_seqs (collection @ [d]) g') \<and>
        (\<forall>n \<in> set (game_seqs (collection @ [d]) g'). 0 < n)"
  proof (cases "g' = g")
    case False
    with assms(2) have "game_seqs (collection @ [d]) g' = game_seqs collection g'"
      by (simp add: game_seqs_def)
    with seq_ok_game [OF assms(1), of g'] show ?thesis by simp
  next
    case True
    with assms(2,3) have eq: "game_seqs (collection @ [d]) g' =
        game_seqs collection g @ [next_sequence collection g]"
      by (simp add: game_seqs_def)
    from seq_ok_game [OF assms(1), of g] next_sequence_greater(1) [OF assms(1)]
      next_sequence_positive [OF assms(1), of g]
    show ?thesis
      unfolding eq by (auto simp: sorted_wrt_append)
  qed
qed

lemma insert_one_fresh:
  assumes "seq_ok collection" and "doc_game_id d = g"
    and "sequence_number d = next_sequence collection g"
  shows "insert_one collection d = Inr (collection @ [d])"
proof -
  have "\<not> (\<exists>x \<in> set collection.
           doc_game_id x = doc_game_id d \<and> sequence_number x = sequence_number d)"
  proof
    assume "\<exists>x \<in> set collection.
           doc_game_id x = doc_game_id d \<and> sequence_number x = sequence_number d"
    then obtain x where x: "x \<in> set collection" "doc_game_id x = g"
      "sequence_number x = next_sequence collection g"
      using assms(2,3) by auto
    from x(1,2) have "x \<in> set (filter (\<lambda>d. doc_game_id d = g) collection)"
      by simp
    then have "sequence_number x \<in> set (game_seqs collection g)"
      unfolding game_seqs_def by (simp only: set_map) (rule imageI)
    from next_sequence_greater(1) [OF assms(1) this] x(3) show False by simp
  qed
  then show ?thesis
    by (simp add: insert_one_def)
qed

lemma add_chat_message_returns:
  assumes "seq_ok collection"
  shows "add_chat_message collection g u a md clock k =
     Some (collection @
             [\<lparr>doc_game_id = g, sequence_number = next_sequence collection g,
               doc_user_input = u, doc_ai_response = a,
               doc_metadata = (case md of Some m \<Rightarrow> if m \<noteq> [] then m else [] | None \<Rightarrow> []),
               doc_timestamp = clock k\<rparr>],
           \<lparr>doc_game_id = g, sequence_number = next_sequence collection g,
             doc_user_input = u, doc_ai_response = a,
             doc_metadata = (case md of Some m \<Rightarrow> if m \<noteq> [] then m else [] | None \<Rightarrow> []),
             doc_timestamp = clock k\<rparr>)"
  by (subst add_chat_message.simps)
     (simp add: next_sequence_find [OF assms] insert_one_fresh [OF assms] Let_def)

lemma get_chat_history_recent:
  assumes "seq_ok collection" and "0 < limit"
  shows "get_chat_history collection g limit =
           drop (length (of_game g collection) - nat limit) (of_game g collection)"
proof -
  let ?ds = "of_game g collection"
  from seq_ok_game [OF assms(1), of g]
  have inc: "sorted_wrt (\<lambda>a b. sequence_number a < sequence_number b) ?ds"
    by (simp add: game_seqs_of_game sorted_wrt_map)
  then have "sorted_wrt (\<lambda>a b. sequence_number b < sequence_number a) (rev ?ds)"
    by (simp add: sorted_wrt_rev)
  then have "sorted_wrt (\<lambda>a b. sequence_number b < sequence_number a) (take (nat limit) (rev ?ds))"
    by (rule sorted_wrt_take)
  then have "sort_key sequence_number (take (nat limit) (rev ?ds)) = rev (take (nat limit) (rev ?ds))"
    by (rule sort_key_descending)
  also have "\<dots> = drop (length ?ds - nat limit) ?ds"
    by (simp add: rev_take)
  finally show ?thesis
    using assms(2)
    by (simp add: get_chat_history_def of_game_descending [OF assms(1)] cursor_limit_def)
qed

lemma get_chat_history_unlimited:
  assumes "seq_ok collection"
  shows "get_chat_history collection g 0 = of_game g collection"
proof -
  let ?ds = "of_game g collection"
  from seq_ok_game [OF assms(1), of g]
  have "sorted_wrt (\<lambda>a b. sequence_number a < sequence_number b) ?ds"
    by (simp add: game_seqs_of_game sorted_wrt_map)
  then have "sorted_wrt (\<lambda>a b. sequence_number b < sequence_number a) (rev ?ds)"
    by (simp add: sorted_wrt_rev)
  then have "sort_key sequence_number (rev ?ds) = rev (rev ?ds)"
    by (rule sort_key_descending)
  then show ?thesis
    by (simp add: get_chat_history_def of_game_descending [OF assms] cursor_limit_def)
qed

lemma get_chat_history_game:
  assumes "m \<in> set (get_chat_history collection g limit)"
  shows "m \<in> set collection \<and> doc_game_id m = g"
proof -
  from assms have "m \<in> set (cursor_limit limit
      (sort_key (\<lambda>d. - sequence_number d) (of_game g collection)))"
    by (simp add: get_chat_history_def)
  then have "m \<in> set (sort_key (\<lambda>d. - sequence_number d) (of_game g collection))"
    by (auto simp: cursor_limit_def split: if_splits dest: in_set_takeD)
  then show ?thesis
    by (simp add: of_game_def)
qed

text \<open>
  Claim C9, amended. In a collection whose sequence numbers are positive and strictly
  increasing in insertion order within each game (hence unique), \<^verbatim>\<open>add_chat_message\<close>
  returns; it appends one message of the game, with the user input and the answer
  given, whose sequence number is 1 when the game has no message and one more than the
  greatest of the game otherwise, which is positive and greater than all the others of
  the game, and the collection keeps the property. \<^verbatim>\<open>get_chat_history\<close> returns messages
  of the game only. For a positive limit it returns the last \<open>limit\<close> messages of the
  game (all of them when there are fewer): at most \<open>limit\<close> messages, those with the
  highest sequence numbers, in ascending order. For the limit 0 it returns all messages
  of the game.
\<close>

theorem sequence_numbers:
  assumes "seq_ok collection"
  shows "(\<exists>d. add_chat_message collection g u a md clock k = Some (collection @ [d], d) \<and>
            doc_game_id d = g \<and> doc_user_input d = u \<and> doc_ai_response d = a \<and>
            sequence_number d =
              (if filter (\<lambda>x. doc_game_id x = g) collection = [] then 1
               else Max (sequence_number ` {x \<in> set collection. doc_game_id x = g}) + 1) \<and>
            0 < sequence_number d \<and>
            (\<forall>x \<in> set collection. doc_game_id x = g \<longrightarrow> sequence_number x < sequence_number d) \<and>
            seq_ok (collection @ [d])) \<and>
         (0 < limit \<longrightarrow>
            get_chat_history collection g limit =
              drop (length (filter (\<lambda>x. doc_game_id x = g) collection) - nat limit)
                (filter (\<lambda>x. doc_game_id x = g) collection) \<and>
            length (get_chat_history collection g limit) \<le> nat limit \<and>
            sorted_wrt (<) (map sequence_number (get_chat_history collection g limit))) \<and>
         get_chat_history collection g 0 = filter (\<lambda>x. doc_game_id x = g) collection \<and>
         (\<forall>m \<in> set (get_chat_history collection g limit).
            m \<in> set collection \<and> doc_game_id m = g)"
proof (intro conjI impI ballI)
  let ?d = "\<lparr>doc_game_id = g, sequence_number = next_sequence collection g,
             doc_user_input = u, doc_ai_response = a,
             doc_metadata = (case md of Some m \<Rightarrow> if m \<noteq> [] then m else [] | None \<Rightarrow> []),
             doc_timestamp = clock k\<rparr>"
  have ok: "seq_ok (collection @ [?d])"
    by (rule seq_ok_append [OF assms, of _ g]) simp_all
  have num: "next_sequence collection g =
      (if filter (\<lambda>x. doc_game_id x = g) collection = [] then 1
       else Max (sequence_number ` {x \<in> set collection. doc_game_id x = g}) + 1)"
    by (simp add: next_sequence_def game_seqs_def)
  have gr: "\<forall>x \<in> set collection. doc_game_id x = g \<longrightarrow>
      sequence_number x < next_sequence collection g"
  proof (intro ballI impI)
    fix x assume "x \<in> set collection" "doc_game_id x = g"
    then have "sequence_number x \<in> set (game_seqs collection g)"
      by (auto simp: game_seqs_def)
    from next_sequence_greater(1) [OF assms this]
    show "sequence_number x < next_sequence collection g" .
  qed
  from ok add_chat_message_returns [OF assms, of g u a md clock k]
    next_sequence_positive [OF assms, of g] gr num
  show "\<exists>d. add_chat_message collection g u a md clock k = Some (collection @ [d], d) \<and>
            doc_game_id d = g \<and> doc_user_input d = u \<and> doc_ai_response d = a \<and>
            sequence_number d =
              (if filter (\<lambda>x. doc_game_id x = g) collection = [] then 1
               else Max (sequence_number ` {x \<in> set collection. doc_game_id x = g}) + 1) \<and>
            0 < sequence_number d \<and>
            (\<forall>x \<in> set collection. doc_game_id x = g \<longrightarrow> sequence_number x < sequence_number d) \<and>
            seq_ok (collection @ [d])"
    by (intro exI [of _ ?d]) simp
next
  assume l: "0 < limit"
  note h = get_chat_history_recent [OF assms l, of g, unfolded of_game_def]
  show "get_chat_history collection g limit =
              drop (length (filter (\<lambda>x. doc_game_id x = g) collection) - nat limit)
                (filter (\<lambda>x. doc_game_id x = g) collection)"
    by (rule h)
  show "length (get_chat_history collection g limit) \<le> nat limit"
    unfolding h by simp
  from seq_ok_game [OF assms, of g]
  have "sorted_wrt (<) (map sequence_number (filter (\<lambda>x. doc_game_id x = g) collection))"
    by (simp add: game_seqs_def)
  then show "sorted_wrt (<) (map sequence_number (get_chat_history collection g limit))"
    unfolding h by (simp add: drop_map [symmetric] sorted_wrt_drop)
next
  show "get_chat_history collection g 0 = filter (\<lambda>x. doc_game_id x = g) collection"
    using get_chat_history_unlimited [OF assms, of g] by (simp add: of_game_def)
next
  fix m assume "m \<in> set (get_chat_history collection g limit)"
  from get_chat_history_game [OF this] show "m \<in> set collection" "doc_game_id m = g"
    by simp_all
qed

text \<open>
  An instance with two games: the second message of the first game gets the number 2,
  a limit of 1 returns it alone, and the other game is read apart.
\<close>

theorem sequence_numbers_witness:
  "seq_ok [message_1, message_3] \<and>
   add_chat_message [message_1, message_3] ''g1'' ''go'' ''ok'' None (\<lambda>n. 30) 0 =
     Some ([message_1, message_3, message_2], message_2) \<and>
   seq_ok [message_1, message_3, message_2] \<and>
   (0::int) < 1 \<and>
   get_chat_history [message_1, message_3, message_2] ''g1'' 1 = [message_2] \<and>
   get_chat_history [message_1, message_3, message_2] ''g2'' 0 = [message_3]"
proof -
  have ok: "seq_ok [message_1, message_3]"
    by (simp add: seq_ok_def message_1_def message_3_def)
  from sequence_numbers [OF ok, where g = "''g1''" and u = "''go''" and a = "''ok''"
      and md = None and clock = "\<lambda>n. 30" and k = 0]
  obtain d where d: "add_chat_message [message_1, message_3] ''g1'' ''go'' ''ok'' None (\<lambda>n. 30) 0 =
      Some ([message_1, message_3] @ [d], d)" "seq_ok ([message_1, message_3] @ [d])"
    by blast
  have b: "add_chat_message [message_1, message_3] ''g1'' ''go'' ''ok'' None (\<lambda>n. 30) 0 =
      Some ([message_1, message_3, message_2], message_2)"
    by (subst add_chat_message.simps)
       (simp add: find_one_max_def of_game_def insert_one_def message_1_def message_2_def
          message_3_def Let_def)
  with d have ok2: "seq_ok [message_1, message_3, message_2]" by simp
  have l: "(0::int) < 1" by simp
  note t = sequence_numbers [OF ok2, where limit = 1 and g = "''g1''"]
  from t l
  have "get_chat_history [message_1, message_3, message_2] ''g1'' 1 =
      drop (length (filter (\<lambda>x. doc_game_id x = ''g1'') [message_1, message_3, message_2]) - nat 1)
        (filter (\<lambda>x. doc_game_id x = ''g1'') [message_1, message_3, message_2])"
    by blast
  then have g: "get_chat_history [message_1, message_3, message_2] ''g1'' 1 = [message_2]"
    by (simp add: message_1_def message_2_def message_3_def)
  from sequence_numbers [OF ok2, where g = "''g2''"]
  have "get_chat_history [message_1, message_3, message_2] ''g2'' 0 =
      filter (\<lambda>x. doc_game_id x = ''g2'') [message_1, message_3, message_2]"
    by blast
  then have g2: "get_chat_history [message_1, message_3, message_2] ''g2'' 0 = [message_3]"
    by (simp add: message_1_def message_2_def message_3_def)
  from ok b ok2 l g g2 show ?thesis by blast
qed

text \<open>
  The claim as first stated bounds the result by the limit. With the limit 0 the
  driver applies no limit, and both messages of the game come back.
\<close>

theorem chat_history_limit_counterexample:
  "get_chat_history [message_1, message_2] ''g1'' 0 = [message_1, message_2] \<and>
   \<not> length (get_chat_history [message_1, message_2] ''g1'' 0) \<le> nat 0"
  by (simp add: get_chat_history_def of_game_def cursor_limit_def message_1_def message_2_def)

section \<open>The order of the histories\<close>

text \<open>
  Claim C5, amended. The conversation list of \<^verbatim>\<open>process_game_request\<close> is sorted by
  time stamp and then sequence number, oldest first, and so by time stamp; the
  conversation history of \<^verbatim>\<open>_handle_character_death\<close> is sorted by time stamp; both hold
  the retrieved entries and no others. The chat history that \<^verbatim>\<open>get_chat_history\<close> reads
  from MongoDB is sorted by sequence number, oldest first; its time stamps are not
  looked at.
\<close>

theorem histories_sorted:
  "sorted (map (\<lambda>x. (timestamp x, sequence x)) (retrieve_conversations got)) \<and>
   sorted (map timestamp (retrieve_conversations got)) \<and>
   set (retrieve_conversations (Inr (Some rs))) = conversation_of ` set rs \<and>
   sorted (map h_timestamp (conversation_history results)) \<and>
   set (conversation_history (Some rs)) = history_entry_of ` set rs \<and>
   sorted (map sequence_number (get_chat_history collection game_id limit))"
proof -
  have a: "sorted (map (\<lambda>x. (timestamp x, sequence x)) (retrieve_conversations got))"
    by (rule sorted_retrieve_conversations)
  from sorted_fst_of_pairs [OF a] have b: "sorted (map timestamp (retrieve_conversations got))" .
  have c: "set (retrieve_conversations (Inr (Some rs))) = conversation_of ` set rs"
    by (simp add: retrieve_conversations_def)
  have d: "set (conversation_history (Some rs)) = history_entry_of ` set rs"
    by (simp add: conversation_history_def)
  from a b c d sorted_conversation_history [of results]
    sorted_get_chat_history [of collection game_id limit] show ?thesis
    by (intro conjI)
qed

text \<open>
  The claim as first stated orders the chat history of MongoDB by time stamp. Two
  messages inserted by \<^verbatim>\<open>add_chat_message\<close>, the clock having stepped back between them,
  come back in the order of their sequence numbers, the later time stamp first.
\<close>

theorem chat_history_timestamp_counterexample:
  "add_chat_message [] ''g1'' ''hi'' ''hello'' None (\<lambda>n. 50) 0 = Some ([message_1], message_1) \<and>
   add_chat_message [message_1] ''g1'' ''go'' ''ok'' None (\<lambda>n. 30) 0 =
     Some ([message_1, message_2], message_2) \<and>
   get_chat_history [message_1, message_2] ''g1'' 20 = [message_1, message_2] \<and>
   \<not> sorted (map doc_timestamp (get_chat_history [message_1, message_2] ''g1'' 20))"
proof -
  have a: "add_chat_message [] ''g1'' ''hi'' ''hello'' None (\<lambda>n. 50) 0 =
      Some ([message_1], message_1)"
    by (subst add_chat_message.simps)
       (simp add: find_one_max_def of_game_def insert_one_def message_1_def Let_def)
  have b: "add_chat_message [message_1] ''g1'' ''go'' ''ok'' None (\<lambda>n. 30) 0 =
      Some ([message_1, message_2], message_2)"
    by (subst add_chat_message.simps)
       (simp add: find_one_max_def of_game_def insert_one_def message_1_def message_2_def Let_def)
  have c: "get_chat_history [message_1, message_2] ''g1'' 20 = [message_1, message_2]"
    by (simp add: get_chat_history_def of_game_def cursor_limit_def message_1_def message_2_def)
  have d: "\<not> sorted (map doc_timestamp [message_1, message_2])"
    by (simp add: message_1_def message_2_def)
  from a b c d show ?thesis by simp
qed

section \<open>Waiting for a job\<close>

lemma clock_progress:
  assumes "clock 0 \<le> clock 1" and "\<forall>j \<ge> 1. clock j + 1000 \<le> clock (Suc j)"
  shows "1 \<le> k \<Longrightarrow> 1000 * (int k - 1) \<le> clock k - clock 0"
proof (induction k)
  case 0
  then show ?case by simp
next
  case (Suc k)
  show ?case
  proof (cases "k = 0")
    case True
    with assms(1) show ?thesis by simp
  next
    case False
    then have "1 \<le> k" by simp
    with Suc.IH assms(2) have "1000 * (int k - 1) \<le> clock k - clock 0"
      "clock k + 1000 \<le> clock (Suc k)"
      by simp_all
    then show ?thesis by simp
  qed
qed

lemma clock_exact:
  assumes "clock 1 = clock 0" and "\<forall>j \<ge> 1. clock (Suc j) = clock j + 1000"
  shows "1 \<le> k \<Longrightarrow> clock k - clock 0 = 1000 * (int k - 1)"
proof (induction k)
  case 0
  then show ?case by simp
next
  case (Suc k)
  show ?case
  proof (cases "k = 0")
    case True
    with assms(1) show ?thesis by simp
  next
    case False
    then have "1 \<le> k" by simp
    with Suc.IH assms(2) have "clock k - clock 0 = 1000 * (int k - 1)"
      "clock (Suc k) = clock k + 1000"
      by simp_all
    then show ?thesis by simp
  qed
qed

lemma wait_loop_returns:
  assumes "clock 0 \<le> clock 1" and "\<forall>j \<ge> 1. clock j + 1000 \<le> clock (Suc j)"
    and "1 \<le> k"
  shows "\<exists>b n warned. wait_loop clock ic ip T k = Some (b, n, warned) \<and>
           k \<le> n \<and> (n = k \<or> n \<le> nat T + 1) \<and>
           (\<forall>j. k \<le> j \<and> j < n \<longrightarrow> clock j - clock 0 < 1000 * T \<and> \<not> ic j \<and> ip j) \<and>
           (if clock n - clock 0 < 1000 * T
            then \<not> warned \<and> (b \<longleftrightarrow> ic n) \<and> (\<not> ic n \<longrightarrow> \<not> ip n)
            else \<not> b \<and> warned)"
  using assms(3)
proof (induction "nat T + 1 - k" arbitrary: k rule: less_induct)
  case less
  let ?P = "\<lambda>b n warned. wait_loop clock ic ip T k = Some (b, n, warned) \<and>
           k \<le> n \<and> (n = k \<or> n \<le> nat T + 1) \<and>
           (\<forall>j. k \<le> j \<and> j < n \<longrightarrow> clock j - clock 0 < 1000 * T \<and> \<not> ic j \<and> ip j) \<and>
           (if clock n - clock 0 < 1000 * T
            then \<not> warned \<and> (b \<longleftrightarrow> ic n) \<and> (\<not> ic n \<longrightarrow> \<not> ip n)
            else \<not> b \<and> warned)"
  show ?case
  proof (cases "clock k - clock 0 < 1000 * T")
    case False
    then have "wait_loop clock ic ip T k = Some (False, k, True)"
      by (subst wait_loop.simps) simp
    with False have "?P False k True" by auto
    then show ?thesis by blast
  next
    case True
    note running = True
    show ?thesis
    proof (cases "ic k")
      case True
      with running have "wait_loop clock ic ip T k = Some (True, k, False)"
        by (subst wait_loop.simps) simp
      with running True have "?P True k False" by auto
      then show ?thesis by blast
    next
      case False
      note not_done = False
      show ?thesis
      proof (cases "ip k")
        case False
        with running not_done have "wait_loop clock ic ip T k = Some (False, k, False)"
          by (subst wait_loop.simps) simp
        with running not_done False have "?P False k False" by auto
        then show ?thesis by blast
      next
        case True
        with running not_done have step:
          "wait_loop clock ic ip T k = wait_loop clock ic ip T (Suc k)"
          by (subst wait_loop.simps) simp
        from clock_progress [OF assms(1,2) less.prems] running
        have "1000 * (int k - 1) < 1000 * T" by simp
        then have kT: "int k \<le> T" by simp
        then have dec: "nat T + 1 - Suc k < nat T + 1 - k" by linarith
        from less.hyps [OF dec] obtain b n warned where
          r: "wait_loop clock ic ip T (Suc k) = Some (b, n, warned)" and
          n: "Suc k \<le> n" "n = Suc k \<or> n \<le> nat T + 1" and
          before: "\<forall>j. Suc k \<le> j \<and> j < n \<longrightarrow>
            clock j - clock 0 < 1000 * T \<and> \<not> ic j \<and> ip j" and
          final: "if clock n - clock 0 < 1000 * T
            then \<not> warned \<and> (b \<longleftrightarrow> ic n) \<and> (\<not> ic n \<longrightarrow> \<not> ip n)
            else \<not> b \<and> warned"
          by auto
        from n kT have bound: "n \<le> nat T + 1" by linarith
        have "\<forall>j. k \<le> j \<and> j < n \<longrightarrow> clock j - clock 0 < 1000 * T \<and> \<not> ic j \<and> ip j"
        proof (intro allI impI)
          fix j assume j: "k \<le> j \<and> j < n"
          show "clock j - clock 0 < 1000 * T \<and> \<not> ic j \<and> ip j"
          proof (cases "j = k")
            case True
            with running not_done \<open>ip k\<close> show ?thesis by simp
          next
            case False
            with j have "Suc k \<le> j \<and> j < n" by simp
            with before show ?thesis by blast
          qed
        qed
        with step r n(1) bound final have "?P b n warned" by auto
        then show ?thesis by blast
      qed
    qed
  qed
qed

text \<open>
  Claim C7, amended. When the clock does not run backwards between the start and the
  first test and every sleep advances it by at least one second, \<^verbatim>\<open>wait_for_completion\<close>
  returns for every positive timeout, after at most \<open>timeout\<close> sleeps. Every round before
  the last one found the elapsed time below the timeout and the job pending and not
  completed. When the last test of the loop condition finds the elapsed time below the
  timeout, the result is true if the job is completed, and false if it is neither
  completed nor pending, without a warning; otherwise the elapsed time has reached the
  timeout, the result is false and the warning is logged. The elapsed time at the last
  test is at most the timeout when the first test follows the start at once and every
  sleep takes exactly one second.
\<close>

theorem wait_for_completion_returns:
  assumes "0 < timeout"
    and "clock 0 \<le> clock 1"
    and "\<forall>j \<ge> 1. clock j + 1000 \<le> clock (Suc j)"
  shows "\<exists>b n warned.
           wait_for_completion self_timeout clock in_completed in_pending (Some timeout) =
             Some (b, n, warned) \<and>
           1 \<le> n \<and> n \<le> nat timeout + 1 \<and>
           (\<forall>j. 1 \<le> j \<and> j < n \<longrightarrow>
              clock j - clock 0 < 1000 * timeout \<and> \<not> in_completed j \<and> in_pending j) \<and>
           (if clock n - clock 0 < 1000 * timeout
            then \<not> warned \<and> (b \<longleftrightarrow> in_completed n) \<and> (\<not> in_completed n \<longrightarrow> \<not> in_pending n)
            else \<not> b \<and> warned) \<and>
           (clock 1 = clock 0 \<and> (\<forall>j \<ge> 1. clock (Suc j) = clock j + 1000) \<longrightarrow>
              clock n - clock 0 \<le> 1000 * timeout)"
proof -
  have one: "(1::nat) \<le> 1" by simp
  from wait_loop_returns [OF assms(2,3) one, of in_completed in_pending timeout]
  obtain b n warned where
    r: "wait_loop clock in_completed in_pending timeout 1 = Some (b, n, warned)" and
    n: "1 \<le> n" "n = 1 \<or> n \<le> nat timeout + 1" and
    before: "\<forall>j. 1 \<le> j \<and> j < n \<longrightarrow>
      clock j - clock 0 < 1000 * timeout \<and> \<not> in_completed j \<and> in_pending j" and
    final: "if clock n - clock 0 < 1000 * timeout
      then \<not> warned \<and> (b \<longleftrightarrow> in_completed n) \<and> (\<not> in_completed n \<longrightarrow> \<not> in_pending n)
      else \<not> b \<and> warned"
    by auto
  from n assms(1) have bound: "n \<le> nat timeout + 1" by linarith
  from assms(1) r have w: "wait_for_completion self_timeout clock in_completed in_pending
      (Some timeout) = Some (b, n, warned)"
    by (simp add: wait_for_completion_def)
  have exact: "clock n - clock 0 \<le> 1000 * timeout"
    if "clock 1 = clock 0 \<and> (\<forall>j \<ge> 1. clock (Suc j) = clock j + 1000)"
  proof -
    from that clock_exact [of clock n] n(1)
    have "clock n - clock 0 = 1000 * (int n - 1)" by blast
    with bound assms(1) show ?thesis by simp
  qed
  from w n(1) bound before final exact have
    "wait_for_completion self_timeout clock in_completed in_pending (Some timeout) =
             Some (b, n, warned) \<and>
           1 \<le> n \<and> n \<le> nat timeout + 1 \<and>
           (\<forall>j. 1 \<le> j \<and> j < n \<longrightarrow>
              clock j - clock 0 < 1000 * timeout \<and> \<not> in_completed j \<and> in_pending j) \<and>
           (if clock n - clock 0 < 1000 * timeout
            then \<not> warned \<and> (b \<longleftrightarrow> in_completed n) \<and> (\<not> in_completed n \<longrightarrow> \<not> in_pending n)
            else \<not> b \<and> warned) \<and>
           (clock 1 = clock 0 \<and> (\<forall>j \<ge> 1. clock (Suc j) = clock j + 1000) \<longrightarrow>
              clock n - clock 0 \<le> 1000 * timeout)"
    by (intro conjI impI) assumption+
  then show ?thesis by blast
qed

text \<open>
  Two instances with sleeps of exactly one second: the job is completed at the second
  round; the job stays pending and the wait ends with the timeout of 3 seconds.
\<close>

theorem wait_for_completion_returns_witness:
  "(0::int) < 3 \<and> exact_clock 0 \<le> exact_clock 1 \<and>
   (\<forall>j. exact_clock (Suc j) + 1000 \<le> exact_clock (Suc (Suc j))) \<and>
   wait_for_completion 300 exact_clock (\<lambda>k. k = 2) (\<lambda>k. k < 2) (Some 3) =
     Some (True, 2, False) \<and>
   wait_for_completion 300 exact_clock (\<lambda>k. False) (\<lambda>k. True) (Some 3) =
     Some (False, 4, True) \<and>
   exact_clock 4 - exact_clock 0 \<le> 1000 * 3"
proof -
  have h1: "(0::int) < 3" by simp
  have h2: "exact_clock 0 \<le> exact_clock 1"
    by (simp add: exact_clock_def)
  have h3: "\<forall>j \<ge> 1. exact_clock j + 1000 \<le> exact_clock (Suc j)"
    by (simp add: exact_clock_def)
  have h4: "exact_clock 1 = exact_clock 0 \<and>
      (\<forall>j \<ge> 1. exact_clock (Suc j) = exact_clock j + 1000)"
    by (simp add: exact_clock_def)
  have r1: "wait_for_completion 300 exact_clock (\<lambda>k. k = 2) (\<lambda>k. k < 2) (Some 3) =
      Some (True, 2, False)"
    by (simp add: wait_for_completion_def wait_loop.simps exact_clock_def)
  have r2: "wait_for_completion 300 exact_clock (\<lambda>k. False) (\<lambda>k. True) (Some 3) =
      Some (False, 4, True)"
    by (simp add: wait_for_completion_def wait_loop.simps exact_clock_def)
  from wait_for_completion_returns [OF h1 h2 h3, of 300 "\<lambda>k. False" "\<lambda>k. True"]
  obtain b n warned where
    "wait_for_completion 300 exact_clock (\<lambda>k. False) (\<lambda>k. True) (Some 3) = Some (b, n, warned)"
    "exact_clock 1 = exact_clock 0 \<and> (\<forall>j \<ge> 1. exact_clock (Suc j) = exact_clock j + 1000) \<longrightarrow>
       exact_clock n - exact_clock 0 \<le> 1000 * 3"
    by blast
  with r2 h4 have "exact_clock 4 - exact_clock 0 \<le> 1000 * 3"
    by simp
  moreover have "\<forall>j. exact_clock (Suc j) + 1000 \<le> exact_clock (Suc (Suc j))"
    by (simp add: exact_clock_def)
  ultimately show ?thesis using h1 h2 r1 r2 by blast
qed

text \<open>
  The claim as first stated lets the function return within the timeout. When every
  round takes one millisecond more than the second it sleeps, the wait with a timeout
  of 2 seconds returns at the third test, 2002 milliseconds after the start.
\<close>

theorem wait_overshoot_counterexample:
  "wait_for_completion 300 slow_clock (\<lambda>k. False) (\<lambda>k. True) (Some 2) = Some (False, 3, True) \<and>
   slow_clock 3 - slow_clock 0 = 2002 \<and>
   \<not> slow_clock 3 - slow_clock 0 \<le> 1000 * 2"
  by (simp add: wait_for_completion_def wait_loop.simps slow_clock_def)

end
